theory Spec2Isabelle
  imports Complex_Main "HOL-Library.Word" "HOL-Library.Sublist"
begin

section \<open>The streaming downloader of create-lavalink (bin/cli.js)\<close>

text \<open>
  The development embeds \<^verbatim>\<open>downloadFile\<close> (lines 27-63 of bin/cli.js), its inner
  \<^verbatim>\<open>writeToFile\<close> loop, the interval callback that renders the spinner, and the
  \<^verbatim>\<open>try/catch\<close> of \<^verbatim>\<open>createLavalink\<close> that calls it (lines 119-126).

  The function is asynchronous. Its only suspension point inside the transfer is
  \<^verbatim>\<open>await reader.read()\<close>; while it is suspended the event loop runs the interval
  callback and completes file-system operations of the write stream. The model therefore
  takes the events of the event loop as a list, in the order they happen, and threads an
  explicit state through them. A list that ends before the reader has settled leaves the
  call suspended: the outcome is \<open>Pending\<close>, and the state is the state at that moment.
  So the state "at a point during the transfer" is the state the model returns on a
  prefix of the events.
\<close>

subsection \<open>Bytes, strings, numbers\<close>

type_synonym byte = "8 word"
type_synonym chunk = "byte list"

text \<open>
  Strings are byte strings: a character outside ASCII stands as its UTF-8 bytes, as the
  source file holds it and as the terminal receives it.
\<close>

definition loadingFrames :: "string list" where
  "loadingFrames =
     [[CHR 0xE2, CHR 0xA0, CHR 0x8B], [CHR 0xE2, CHR 0xA0, CHR 0x99],
      [CHR 0xE2, CHR 0xA0, CHR 0xB9], [CHR 0xE2, CHR 0xA0, CHR 0xB8],
      [CHR 0xE2, CHR 0xA0, CHR 0xBC], [CHR 0xE2, CHR 0xA0, CHR 0xB4],
      [CHR 0xE2, CHR 0xA0, CHR 0xA6], [CHR 0xE2, CHR 0xA0, CHR 0xA7],
      [CHR 0xE2, CHR 0xA0, CHR 0x87], [CHR 0xE2, CHR 0xA0, CHR 0x8F]]"

text \<open>
  The success marker of the final line: \<^verbatim>\<open>\x1b[32m\<close>, the check mark U+2714,
  \<^verbatim>\<open>\x1b[0m\<close>.
\<close>

definition successMark :: string where
  "successMark =
     [CHR 0x1B, CHR ''['', CHR ''3'', CHR ''2'', CHR ''m'',
      CHR 0xE2, CHR 0x9C, CHR 0x94,
      CHR 0x1B, CHR ''['', CHR ''0'', CHR ''m'']"

definition digit :: "nat \<Rightarrow> char" where
  "digit d = ''0123456789'' ! (d mod 10)"

fun decimal :: "nat \<Rightarrow> string" where
  "decimal n = (if n < 10 then [digit n] else decimal (n div 10) @ [digit n])"

declare decimal.simps [simp del]

text \<open>
  \<^verbatim>\<open>x.toFixed(2)\<close> (ECMAScript, Number.prototype.toFixed): the integer \<open>n\<close> with
  \<open>n / 100\<close> nearest to \<open>x\<close>, the larger one on a tie, printed with two digits after the
  point and a sign for a negative \<open>x\<close>. The numbers of this program are byte counts
  divided twice by 1024, which a double holds exactly below \<open>2^53\<close> bytes, so they are
  rationals here. (At \<open>10^21\<close> and above toFixed switches to exponent notation; a byte
  count in megabytes does not reach it.)
\<close>

definition toFixed2 :: "rat \<Rightarrow> string" where
  "toFixed2 x =
     (let n = nat \<lfloor>\<bar>x\<bar> * 100 + 1 / 2\<rfloor>
      in (if x < 0 then ''-'' else '''') @
         decimal (n div 100) @ ''.'' @ [digit (n div 10), digit n])"

subsection \<open>The response and the events of the event loop\<close>

datatype error =
    Error string      \<comment> \<open>\<^verbatim>\<open>new Error(message)\<close>, thrown by downloadFile itself\<close>
  | NullBody          \<comment> \<open>the TypeError of \<^verbatim>\<open>response.body.getReader()\<close> on a null body\<close>
  | External string   \<comment> \<open>a rejection reason that comes from fetch or from the reader\<close>

text \<open>
  The parts of a fetch Response that downloadFile reads. \<open>content_length\<close> is
  \<^verbatim>\<open>response.headers.get('content-length')\<close>: \<open>None\<close> when the header is absent
  (the call gives null), \<open>Some n\<close> when it is present with the decimal value \<open>n\<close>. A
  header that is present is a non-empty digit string, which is truthy in JavaScript
  (also \<^verbatim>\<open>"0"\<close>), so the test \<^verbatim>\<open>totalSize ? ... : 'unknown'\<close> is the case
  distinction on the option. \<open>has_body\<close> is false when \<^verbatim>\<open>response.body\<close> is null.
\<close>

record response =
  ok :: bool
  statusText :: string
  content_length :: "nat option"
  has_body :: bool

datatype fetched =
    Fulfilled response
  | Refused error     \<comment> \<open>the promise of fetch rejects\<close>
  | Stalled           \<comment> \<open>the promise of fetch never settles\<close>

datatype read_result =
    Value chunk       \<comment> \<open>\<^verbatim>\<open>{ done: false, value }\<close>\<close>
  | EndOfStream       \<comment> \<open>\<^verbatim>\<open>{ done: true }\<close>\<close>
  | ReadFail error    \<comment> \<open>the promise of \<^verbatim>\<open>reader.read()\<close> rejects\<close>

datatype event =
    Read read_result  \<comment> \<open>the pending \<^verbatim>\<open>reader.read()\<close> settles\<close>
  | Tick              \<comment> \<open>100 ms have passed: the event loop runs the due timers\<close>
  | IO                \<comment> \<open>one file-system operation of the write stream completes\<close>

datatype outcome = Resolved | Rejected error | Pending

subsection \<open>The state\<close>

text \<open>
  A write stream of Node (\<^verbatim>\<open>fs.createWriteStream\<close>): the file is opened, written and
  closed by asynchronous file-system operations; \<^verbatim>\<open>write\<close> and \<^verbatim>\<open>end\<close> only queue
  work. \<open>pending\<close> holds the chunks accepted by \<^verbatim>\<open>write\<close> and not yet on disk.
\<close>

datatype flag = Flag_w | Flag_a

record write_stream =
  path :: string
  flags :: flag
  opened :: bool
  pending :: "chunk list"
  ended :: bool
  closed :: bool

datatype timer = Unset | Active | Cleared

record state =
  files :: "string \<rightharpoonup> byte list"      \<comment> \<open>the file system: contents by path\<close>
  terminal :: "string list"               \<comment> \<open>the lines given to logUpdate, oldest first\<close>
  stderr :: "(string \<times> error) list"       \<comment> \<open>the calls of console.error\<close>
  requests :: "string list"               \<comment> \<open>the URLs given to fetch, oldest first\<close>
  downloadedSize :: nat
  i :: nat
  interval :: timer
  fileStream :: "write_stream option"

subsection \<open>The runtime: logUpdate, the write stream, the timer\<close>

definition logUpdate :: "string \<Rightarrow> state \<Rightarrow> state" where
  "logUpdate line s = s\<lparr>terminal := terminal s @ [line]\<rparr>"

definition console_error :: "string \<Rightarrow> error \<Rightarrow> state \<Rightarrow> state" where
  "console_error msg err s = s\<lparr>stderr := stderr s @ [(msg, err)]\<rparr>"

text \<open>\<^verbatim>\<open>fs.createWriteStream(destination)\<close>: no options, so the flags are \<^verbatim>\<open>'w'\<close>.\<close>

definition createWriteStream :: "string \<Rightarrow> write_stream" where
  "createWriteStream destination =
     \<lparr>path = destination, flags = Flag_w, opened = False, pending = [],
      ended = False, closed = False\<rparr>"

definition fileStream_write :: "chunk \<Rightarrow> state \<Rightarrow> state" where
  "fileStream_write v s =
     (case fileStream s of
        None \<Rightarrow> s
      | Some ws \<Rightarrow> s\<lparr>fileStream := Some (ws\<lparr>pending := pending ws @ [v]\<rparr>)\<rparr>)"

definition fileStream_end :: "state \<Rightarrow> state" where
  "fileStream_end s =
     (case fileStream s of
        None \<Rightarrow> s
      | Some ws \<Rightarrow> s\<lparr>fileStream := Some (ws\<lparr>ended := True\<rparr>)\<rparr>)"

definition file_at :: "state \<Rightarrow> string \<Rightarrow> byte list" where
  "file_at s p = (case files s p of None \<Rightarrow> [] | Some d \<Rightarrow> d)"

text \<open>
  One file-system operation of the stream completes. In order: the open (flag
  \<^verbatim>\<open>'w'\<close> creates the file or truncates it to length zero, flag \<^verbatim>\<open>'a'\<close> keeps
  what is there), then the queued chunks, oldest first, each appended to the file, then,
  once \<^verbatim>\<open>end\<close> has been called and the queue is empty, the close. The destination
  is taken to be writable: an error event of the stream is not modelled.
\<close>

definition io :: "state \<Rightarrow> state" where
  "io s =
     (case fileStream s of
        None \<Rightarrow> s
      | Some ws \<Rightarrow>
          if closed ws then s
          else if \<not> opened ws then
            s\<lparr>files := (files s)(path ws \<mapsto>
                   (case flags ws of Flag_w \<Rightarrow> [] | Flag_a \<Rightarrow> file_at s (path ws))),
              fileStream := Some (ws\<lparr>opened := True\<rparr>)\<rparr>
          else
            (case pending ws of
               c # cs \<Rightarrow>
                 s\<lparr>files := (files s)(path ws \<mapsto> file_at s (path ws) @ c),
                   fileStream := Some (ws\<lparr>pending := cs\<rparr>)\<rparr>
             | [] \<Rightarrow>
                 if ended ws then s\<lparr>fileStream := Some (ws\<lparr>closed := True\<rparr>)\<rparr> else s))"

subsection \<open>The program\<close>

definition progress_line :: "string \<Rightarrow> string \<Rightarrow> string \<Rightarrow> string \<Rightarrow> string" where
  "progress_line mark text downloadedMB totaledSizeMB =
     mark @ '' '' @ text @ '' ('' @ downloadedMB @ '' MB / '' @ totaledSizeMB @ '' MB)''"

text \<open>The callback given to \<^verbatim>\<open>setInterval\<close> (lines 40-44).\<close>

definition interval_callback :: "string \<Rightarrow> string \<Rightarrow> state \<Rightarrow> state" where
  "interval_callback text totaledSizeMB s =
     (let frame = loadingFrames ! (i s mod length loadingFrames);
          s1 = s\<lparr>i := i s + 1\<rparr>;
          downloadedMB = toFixed2 (of_nat (downloadedSize s1) / 1024 / 1024)
      in logUpdate (progress_line frame text downloadedMB totaledSizeMB) s1)"

text \<open>The event loop runs the callback only while the timer is set and not cleared.\<close>

definition tick :: "string \<Rightarrow> string \<Rightarrow> state \<Rightarrow> state" where
  "tick text totaledSizeMB s =
     (if interval s = Active then interval_callback text totaledSizeMB s else s)"

text \<open>
  \<^verbatim>\<open>writeToFile\<close> (lines 49-57). The result is the outcome of its promise, the state,
  and the events that have not happened yet.
\<close>

fun writeToFile :: "string \<Rightarrow> string \<Rightarrow> event list \<Rightarrow> state \<Rightarrow> outcome \<times> state \<times> event list" where
  "writeToFile text totaledSizeMB [] s = (Pending, s, [])"
| "writeToFile text totaledSizeMB (Tick # es) s = writeToFile text totaledSizeMB es (tick text totaledSizeMB s)"
| "writeToFile text totaledSizeMB (IO # es) s = writeToFile text totaledSizeMB es (io s)"
| "writeToFile text totaledSizeMB (Read (Value v) # es) s =
     writeToFile text totaledSizeMB es
       (fileStream_write v (s\<lparr>downloadedSize := downloadedSize s + length v\<rparr>))"
| "writeToFile text totaledSizeMB (Read EndOfStream # es) s = (Resolved, fileStream_end s, es)"
| "writeToFile text totaledSizeMB (Read (ReadFail e) # es) s = (Rejected e, s, es)"

text \<open>\<^verbatim>\<open>downloadFile(url, destination, text = 'Downloading...')\<close> (lines 27-63).\<close>

definition downloadFile ::
  "(string \<Rightarrow> fetched) \<Rightarrow> string \<Rightarrow> string \<Rightarrow> string option \<Rightarrow> event list \<Rightarrow> state
     \<Rightarrow> outcome \<times> state \<times> event list" where
  "downloadFile fetch url destination text_arg es s =
     (let text = (case text_arg of None \<Rightarrow> ''Downloading...'' | Some t \<Rightarrow> t);
          s1 = s\<lparr>requests := requests s @ [url]\<rparr>
      in case fetch url of
           Stalled \<Rightarrow> (Pending, s1, es)
         | Refused e \<Rightarrow> (Rejected e, s1, es)
         | Fulfilled response \<Rightarrow>
             if \<not> ok response then
               (Rejected (Error (''Failed to download file: '' @ statusText response)), s1, es)
             else
               let totalSize = content_length response;
                   s2 = s1\<lparr>downloadedSize := 0\<rparr>;
                   totaledSizeMB =
                     (case totalSize of
                        Some n \<Rightarrow> toFixed2 (of_nat n / 1024 / 1024)
                      | None \<Rightarrow> ''unknown'');
                   s3 = s2\<lparr>i := 0\<rparr>;
                   s4 = s3\<lparr>interval := Active\<rparr>;
                   s5 = s4\<lparr>fileStream := Some (createWriteStream destination)\<rparr>
               in if \<not> has_body response then (Rejected NullBody, s5, es)
                  else
                    (case writeToFile text totaledSizeMB es s5 of
                       (Pending, s6, rest) \<Rightarrow> (Pending, s6, rest)
                     | (Rejected e, s6, rest) \<Rightarrow> (Rejected e, s6, rest)
                     | (Resolved, s6, rest) \<Rightarrow>
                         let s7 = s6\<lparr>interval := Cleared\<rparr>
                         in (Resolved,
                             logUpdate
                               (progress_line successMark text
                                  (toFixed2 (of_nat (downloadedSize s7) / 1024 / 1024))
                                  totaledSizeMB) s7,
                             rest)))"

text \<open>
  The download step of \<^verbatim>\<open>createLavalink\<close> (lines 119-126): the jar is fetched, and a
  rejection is logged and ends the process with \<^verbatim>\<open>process.exit(1)\<close>.
\<close>

datatype process = Continue | Exit nat | Waiting

definition download_jar ::
  "(string \<Rightarrow> fetched) \<Rightarrow> string \<Rightarrow> event list \<Rightarrow> state \<Rightarrow> process \<times> state \<times> event list" where
  "download_jar fetch version es s =
     (let jarUrl = ''https://github.com/lavalink-devs/Lavalink/releases/download/'' @
                     version @ ''/Lavalink.jar'';
          jarFile = ''Lavalink.jar''
      in case downloadFile fetch jarUrl jarFile
                (Some (''Downloading Lavalink version '' @ version @ ''...'')) es s of
           (Resolved, s', rest) \<Rightarrow> (Continue, s', rest)
         | (Rejected err, s', rest) \<Rightarrow>
             (Exit 1, console_error ''Failed to download Lavalink:'' err s', rest)
         | (Pending, s', rest) \<Rightarrow> (Waiting, s', rest))"

subsection \<open>Observations on a run\<close>

text \<open>
  What the events, read in order, make the reader deliver: the chunks before the reader
  ends or fails, how it ends, and the events that come after that.
\<close>

fun chunks :: "event list \<Rightarrow> chunk list" where
  "chunks [] = []"
| "chunks (Tick # es) = chunks es"
| "chunks (IO # es) = chunks es"
| "chunks (Read (Value v) # es) = v # chunks es"
| "chunks (Read EndOfStream # es) = []"
| "chunks (Read (ReadFail e) # es) = []"

fun ending :: "event list \<Rightarrow> outcome" where
  "ending [] = Pending"
| "ending (Tick # es) = ending es"
| "ending (IO # es) = ending es"
| "ending (Read (Value v) # es) = ending es"
| "ending (Read EndOfStream # es) = Resolved"
| "ending (Read (ReadFail e) # es) = Rejected e"

fun remaining :: "event list \<Rightarrow> event list" where
  "remaining [] = []"
| "remaining (Tick # es) = remaining es"
| "remaining (IO # es) = remaining es"
| "remaining (Read (Value v) # es) = remaining es"
| "remaining (Read EndOfStream # es) = es"
| "remaining (Read (ReadFail e) # es) = es"

text \<open>
  The spinner lines of a run, as a function of the events alone: a tick renders the frame
  with index \<open>k\<close> and the byte count \<open>d\<close> read so far, a chunk adds its length to
  \<open>d\<close>. Lemma \<open>writeToFile_terminal\<close> shows that these are the lines the program gives
  to logUpdate.
\<close>

fun rendered :: "string \<Rightarrow> string \<Rightarrow> nat \<Rightarrow> nat \<Rightarrow> event list \<Rightarrow> string list" where
  "rendered text totaledSizeMB k d [] = []"
| "rendered text totaledSizeMB k d (Tick # es) =
     progress_line (loadingFrames ! (k mod 10)) text (toFixed2 (of_nat d / 1024 / 1024)) totaledSizeMB
       # rendered text totaledSizeMB (k + 1) d es"
| "rendered text totaledSizeMB k d (IO # es) = rendered text totaledSizeMB k d es"
| "rendered text totaledSizeMB k d (Read (Value v) # es) =
     rendered text totaledSizeMB k (d + length v) es"
| "rendered text totaledSizeMB k d (Read EndOfStream # es) = []"
| "rendered text totaledSizeMB k d (Read (ReadFail e) # es) = []"

text \<open>
  The bytes the write stream has put on disk, the bytes it still queues, and the two
  together: the bytes it has accepted through \<^verbatim>\<open>write\<close>, in order.
\<close>

definition on_disk :: "state \<Rightarrow> byte list" where
  "on_disk s =
     (case fileStream s of
        None \<Rightarrow> []
      | Some ws \<Rightarrow> if opened ws then file_at s (path ws) else [])"

definition queued :: "state \<Rightarrow> byte list" where
  "queued s = (case fileStream s of None \<Rightarrow> [] | Some ws \<Rightarrow> concat (pending ws))"

definition accepted :: "state \<Rightarrow> byte list" where
  "accepted s = on_disk s @ queued s"

text \<open>The state of a result.\<close>

definition state_of :: "outcome \<times> state \<times> event list \<Rightarrow> state" where
  "state_of r = fst (snd r)"

text \<open>
  Facts about the stream of a state, for the invariants of the loop: it writes to the
  destination with flag \<^verbatim>\<open>'w'\<close> (and the file exists once it is opened); whether
  \<^verbatim>\<open>end\<close> has been called; whether it is closed; how many chunks it queues; how many
  file-system operations it still has to complete once it is ended.
\<close>

definition writing :: "string \<Rightarrow> state \<Rightarrow> bool" where
  "writing dest s =
     (case fileStream s of
        None \<Rightarrow> False
      | Some ws \<Rightarrow>
          path ws = dest \<and> flags ws = Flag_w \<and> (\<not> opened ws \<or> dest \<in> dom (files s)))"

definition todo :: "state \<Rightarrow> nat" where
  "todo s =
     (case fileStream s of
        None \<Rightarrow> 0
      | Some ws \<Rightarrow>
          if closed ws then 0
          else (if opened ws then 0 else 1) + length (pending ws) + 1)"

definition is_ended :: "state \<Rightarrow> bool" where
  "is_ended s = (case fileStream s of None \<Rightarrow> False | Some ws \<Rightarrow> ended ws)"

definition is_closed :: "state \<Rightarrow> bool" where
  "is_closed s = (case fileStream s of None \<Rightarrow> False | Some ws \<Rightarrow> closed ws)"

definition backlog :: "state \<Rightarrow> nat" where
  "backlog s = (case fileStream s of None \<Rightarrow> 0 | Some ws \<Rightarrow> length (pending ws))"

text \<open>
  Parts of downloadFile, named for the statements: the label (the parameter
  \<^verbatim>\<open>text\<close> with its default), the total as it is rendered, the state in which the
  loop starts, and the final line for a body of \<open>n\<close> bytes. Lemma \<open>downloadFile_unfold\<close>
  relates them to the definition of downloadFile.
\<close>

definition label :: "string option \<Rightarrow> string" where
  "label text_arg = (case text_arg of None \<Rightarrow> ''Downloading...'' | Some t \<Rightarrow> t)"

definition totaledSizeMB_of :: "response \<Rightarrow> string" where
  "totaledSizeMB_of r =
     (case content_length r of
        Some n \<Rightarrow> toFixed2 (of_nat n / 1024 / 1024)
      | None \<Rightarrow> ''unknown'')"

definition started :: "string \<Rightarrow> string \<Rightarrow> state \<Rightarrow> state" where
  "started url destination s =
     s\<lparr>requests := requests s @ [url], downloadedSize := 0, i := 0, interval := Active,
       fileStream := Some (createWriteStream destination)\<rparr>"

definition final_line :: "string option \<Rightarrow> response \<Rightarrow> nat \<Rightarrow> string" where
  "final_line text_arg r n =
     progress_line successMark (label text_arg) (toFixed2 (of_nat n / 1024 / 1024))
       (totaledSizeMB_of r)"

text \<open>
  Concrete inputs for the closed theorems: a file system in which the destination exists
  with two bytes, an ok response, a 404 response, and a body of two chunks with ticks and
  one file-system completion between the reads.
\<close>

definition example_state :: state where
  "example_state =
     \<lparr>files = [''Lavalink.jar'' \<mapsto> [9, 9]], terminal = [], stderr = [], requests = [],
      downloadedSize = 0, i = 0, interval = Unset, fileStream = None\<rparr>"

definition ok_response :: "nat option \<Rightarrow> response" where
  "ok_response cl = \<lparr>ok = True, statusText = ''OK'', content_length = cl, has_body = True\<rparr>"

definition not_found :: response where
  "not_found = \<lparr>ok = False, statusText = ''Not Found'', content_length = None, has_body = True\<rparr>"

definition example_events :: "event list" where
  "example_events = [Tick, Read (Value [1, 2]), IO, Tick, Read (Value [3]), Read EndOfStream]"

text \<open>
  Larger bodies: a chunk of \<open>n\<close> zero bytes; a body of 5242880 bytes in ten chunks of
  524288 with a tick before the first and after the fifth; and a body of 1048576 bytes in
  three chunks with a tick after the first.
\<close>

definition zeros :: "nat \<Rightarrow> chunk" where
  "zeros n = replicate n 0"

definition scenario_A :: "event list" where
  "scenario_A =
     [Tick,
      Read (Value (zeros 524288)), Read (Value (zeros 524288)), Read (Value (zeros 524288)),
      Read (Value (zeros 524288)), Read (Value (zeros 524288)),
      Tick,
      Read (Value (zeros 524288)), Read (Value (zeros 524288)), Read (Value (zeros 524288)),
      Read (Value (zeros 524288)), Read (Value (zeros 524288)),
      Read EndOfStream]"

definition scenario_B :: "event list" where
  "scenario_B =
     [Read (Value (zeros 349525)), Tick, Read (Value (zeros 349525)),
      Read (Value (zeros 349526)), Read EndOfStream]"

section \<open>Properties\<close>

subsection \<open>The loop, step by step\<close>

lemma length_loadingFrames: "length loadingFrames = 10"
  by (simp add: loadingFrames_def)

lemma writeToFile_outcome: "fst (writeToFile lbl t es s) = ending es"
  by (induction lbl t es s rule: writeToFile.induct) simp_all

lemma writeToFile_rest: "snd (snd (writeToFile lbl t es s)) = remaining es"
  by (induction lbl t es s rule: writeToFile.induct) simp_all

lemma tick_fields:
  "interval (tick lbl t s) = interval s" "requests (tick lbl t s) = requests s"
  "stderr (tick lbl t s) = stderr s" "files (tick lbl t s) = files s"
  "fileStream (tick lbl t s) = fileStream s" "downloadedSize (tick lbl t s) = downloadedSize s"
  by (simp_all add: tick_def interval_callback_def logUpdate_def Let_def)

lemma io_fields:
  "interval (io s) = interval s" "requests (io s) = requests s"
  "stderr (io s) = stderr s" "terminal (io s) = terminal s" "i (io s) = i s"
  "downloadedSize (io s) = downloadedSize s"
  by (simp_all add: io_def split: option.splits list.splits)

lemma write_fields:
  "interval (fileStream_write v s) = interval s" "requests (fileStream_write v s) = requests s"
  "stderr (fileStream_write v s) = stderr s" "terminal (fileStream_write v s) = terminal s"
  "i (fileStream_write v s) = i s" "files (fileStream_write v s) = files s"
  "downloadedSize (fileStream_write v s) = downloadedSize s"
  by (simp_all add: fileStream_write_def split: option.splits)

lemma end_fields:
  "interval (fileStream_end s) = interval s" "requests (fileStream_end s) = requests s"
  "stderr (fileStream_end s) = stderr s" "terminal (fileStream_end s) = terminal s"
  "i (fileStream_end s) = i s" "files (fileStream_end s) = files s"
  "downloadedSize (fileStream_end s) = downloadedSize s"
  by (simp_all add: fileStream_end_def split: option.splits)

lemma writeToFile_interval: "interval (state_of (writeToFile lbl t es s)) = interval s"
  by (induction lbl t es s rule: writeToFile.induct)
     (simp_all add: state_of_def tick_fields io_fields write_fields end_fields)

lemma writeToFile_requests: "requests (state_of (writeToFile lbl t es s)) = requests s"
  by (induction lbl t es s rule: writeToFile.induct)
     (simp_all add: state_of_def tick_fields io_fields write_fields end_fields)

lemma writeToFile_stderr: "stderr (state_of (writeToFile lbl t es s)) = stderr s"
  by (induction lbl t es s rule: writeToFile.induct)
     (simp_all add: state_of_def tick_fields io_fields write_fields end_fields)

lemma writeToFile_size:
  "downloadedSize (state_of (writeToFile lbl t es s)) = downloadedSize s + length (concat (chunks es))"
  by (induction lbl t es s rule: writeToFile.induct)
     (simp_all add: state_of_def tick_fields io_fields write_fields end_fields)

lemma tick_active:
  "interval s = Active \<Longrightarrow>
   terminal (tick lbl t s) = terminal s @
     [progress_line (loadingFrames ! (i s mod 10)) lbl
        (toFixed2 (of_nat (downloadedSize s) / 1024 / 1024)) t]"
  "interval s = Active \<Longrightarrow> i (tick lbl t s) = i s + 1"
  by (simp_all add: tick_def interval_callback_def logUpdate_def Let_def length_loadingFrames)

lemma writeToFile_terminal:
  "interval s = Active \<Longrightarrow>
   terminal (state_of (writeToFile lbl t es s)) =
     terminal s @ rendered lbl t (i s) (downloadedSize s) es"
  by (induction lbl t es s rule: writeToFile.induct)
     (simp_all add: state_of_def tick_fields io_fields write_fields end_fields tick_active)

lemma io_dom: "dom (files s) \<subseteq> dom (files (io s))"
  by (auto simp: io_def split: option.splits list.splits)

lemma writeToFile_dom: "dom (files s) \<subseteq> dom (files (state_of (writeToFile lbl t es s)))"
proof (induction lbl t es s rule: writeToFile.induct)
  case (3 lbl t es s)
  then show ?case using io_dom [of s] by (simp add: state_of_def)
qed (simp_all add: state_of_def tick_fields write_fields end_fields)

lemma io_writing: "writing dest s \<Longrightarrow> writing dest (io s)"
  by (auto simp: writing_def io_def split: option.splits list.splits)

lemma tick_writing: "writing dest (tick lbl t s) = writing dest s"
  by (simp add: writing_def tick_fields split: option.splits)

lemma write_writing: "writing dest (fileStream_write v s) = writing dest s"
  by (auto simp: writing_def fileStream_write_def split: option.splits)

lemma end_writing: "writing dest (fileStream_end s) = writing dest s"
  by (auto simp: writing_def fileStream_end_def split: option.splits)

lemma size_writing: "writing dest (s\<lparr>downloadedSize := n\<rparr>) = writing dest s"
  by (simp add: writing_def split: option.splits)

lemma io_None: "fileStream s = None \<Longrightarrow> io s = s"
  by (simp add: io_def)

lemma io_is_closed: "fileStream s = Some ws \<Longrightarrow> closed ws \<Longrightarrow> io s = s"
  by (simp add: io_def)

lemma io_open:
  "fileStream s = Some ws \<Longrightarrow> \<not> closed ws \<Longrightarrow> \<not> opened ws \<Longrightarrow>
   io s = s\<lparr>files := (files s)(path ws \<mapsto>
               (case flags ws of Flag_w \<Rightarrow> [] | Flag_a \<Rightarrow> file_at s (path ws))),
            fileStream := Some (ws\<lparr>opened := True\<rparr>)\<rparr>"
  by (simp add: io_def)

lemma io_flush:
  "fileStream s = Some ws \<Longrightarrow> \<not> closed ws \<Longrightarrow> opened ws \<Longrightarrow> pending ws = c # cs \<Longrightarrow>
   io s = s\<lparr>files := (files s)(path ws \<mapsto> file_at s (path ws) @ c),
            fileStream := Some (ws\<lparr>pending := cs\<rparr>)\<rparr>"
  by (simp add: io_def)

lemma io_close:
  "fileStream s = Some ws \<Longrightarrow> \<not> closed ws \<Longrightarrow> opened ws \<Longrightarrow> pending ws = [] \<Longrightarrow>
   ended ws \<Longrightarrow> io s = s\<lparr>fileStream := Some (ws\<lparr>closed := True\<rparr>)\<rparr>"
  by (simp add: io_def)

lemma io_idle:
  "fileStream s = Some ws \<Longrightarrow> \<not> closed ws \<Longrightarrow> opened ws \<Longrightarrow> pending ws = [] \<Longrightarrow>
   \<not> ended ws \<Longrightarrow> io s = s"
  by (simp add: io_def)

lemma io_accepted: "writing dest s \<Longrightarrow> accepted (io s) = accepted s"
proof -
  assume w: "writing dest s"
  then obtain ws where ws: "fileStream s = Some ws" and fl: "flags ws = Flag_w"
    by (auto simp: writing_def split: option.splits)
  show ?thesis
  proof (cases "closed ws")
    case True
    with ws show ?thesis by (simp add: io_is_closed)
  next
    case nc: False
    show ?thesis
    proof (cases "opened ws")
      case False
      with ws nc fl show ?thesis
        by (simp add: io_open accepted_def on_disk_def queued_def file_at_def)
    next
      case op: True
      show ?thesis
      proof (cases "pending ws")
        case (Cons c cs)
        with ws nc op show ?thesis
          by (simp add: io_flush accepted_def on_disk_def queued_def file_at_def)
      next
        case Nil
        with ws nc op show ?thesis
          by (cases "ended ws") (simp_all add: io_close io_idle accepted_def on_disk_def queued_def file_at_def)
      qed
    qed
  qed
qed

lemma tick_accepted: "accepted (tick lbl t s) = accepted s"
  by (simp add: accepted_def on_disk_def queued_def file_at_def tick_fields split: option.splits)

lemma write_accepted:
  "writing dest s \<Longrightarrow> accepted (fileStream_write v (s\<lparr>downloadedSize := n\<rparr>)) = accepted s @ v"
  by (auto simp: writing_def fileStream_write_def accepted_def on_disk_def queued_def file_at_def
           split: option.splits)

lemma end_accepted: "accepted (fileStream_end s) = accepted s"
  by (auto simp: fileStream_end_def accepted_def on_disk_def queued_def file_at_def
           split: option.splits)

lemma writeToFile_writing:
  "writing dest s \<Longrightarrow> writing dest (state_of (writeToFile lbl t es s))"
  by (induction lbl t es s rule: writeToFile.induct)
     (simp_all add: state_of_def io_writing tick_writing write_writing end_writing size_writing)

lemma writeToFile_accepted:
  "writing dest s \<Longrightarrow>
   accepted (state_of (writeToFile lbl t es s)) = accepted s @ concat (chunks es)"
  by (induction lbl t es s rule: writeToFile.induct)
     (simp_all add: state_of_def io_writing tick_writing write_writing size_writing
        io_accepted [where dest = dest] tick_accepted write_accepted [where dest = dest]
        end_accepted)

lemma io_ended: "is_ended (io s) = is_ended s"
  by (auto simp: is_ended_def io_def split: option.splits list.splits)

lemma tick_ended: "is_ended (tick lbl t s) = is_ended s"
  by (simp add: is_ended_def tick_fields)

lemma write_ended: "is_ended (fileStream_write v s) = is_ended s"
  by (auto simp: is_ended_def fileStream_write_def split: option.splits)

lemma size_ended: "is_ended (s\<lparr>downloadedSize := n\<rparr>) = is_ended s"
  by (simp add: is_ended_def)

lemma end_ended: "writing dest s \<Longrightarrow> is_ended (fileStream_end s)"
  by (auto simp: is_ended_def writing_def fileStream_end_def split: option.splits)

lemma writeToFile_ended:
  "writing dest s \<Longrightarrow> ending es = Resolved \<Longrightarrow> is_ended (state_of (writeToFile lbl t es s))"
  by (induction lbl t es s rule: writeToFile.induct)
     (simp_all add: state_of_def io_writing tick_writing write_writing size_writing end_ended)

lemma io_closed: "\<not> is_ended s \<Longrightarrow> \<not> is_closed s \<Longrightarrow> \<not> is_closed (io s)"
  by (auto simp: is_ended_def is_closed_def io_def split: option.splits list.splits)

lemma tick_closed: "is_closed (tick lbl t s) = is_closed s"
  by (simp add: is_closed_def tick_fields)

lemma write_closed: "is_closed (fileStream_write v s) = is_closed s"
  by (auto simp: is_closed_def fileStream_write_def split: option.splits)

lemma size_closed: "is_closed (s\<lparr>downloadedSize := n\<rparr>) = is_closed s"
  by (simp add: is_closed_def)

lemma end_closed: "is_closed (fileStream_end s) = is_closed s"
  by (auto simp: is_closed_def fileStream_end_def split: option.splits)

lemma writeToFile_not_closed:
  "\<not> is_ended s \<Longrightarrow> \<not> is_closed s \<Longrightarrow> \<not> is_closed (state_of (writeToFile lbl t es s))"
  by (induction lbl t es s rule: writeToFile.induct)
     (simp_all add: state_of_def io_closed io_ended tick_closed tick_ended write_closed
        write_ended size_closed size_ended end_closed)

lemma io_todo: "is_ended s \<Longrightarrow> todo (io s) = todo s - 1"
  by (auto simp: is_ended_def todo_def io_def split: option.splits list.splits)

lemma funpow_io_ended: "is_ended ((io ^^ n) s) = is_ended s"
  by (induction n) (simp_all add: io_ended)

lemma funpow_io_writing: "writing dest s \<Longrightarrow> writing dest ((io ^^ n) s)"
  by (induction n) (simp_all add: io_writing)

lemma funpow_io_accepted: "writing dest s \<Longrightarrow> accepted ((io ^^ n) s) = accepted s"
  by (induction n) (simp_all add: io_accepted [where dest = dest] funpow_io_writing)

lemma io_backlog: "backlog (io s) \<le> backlog s"
  by (auto simp: backlog_def io_def split: option.splits list.splits)

lemma tick_backlog: "backlog (tick lbl t s) = backlog s"
  by (simp add: backlog_def tick_fields)

lemma write_backlog: "backlog (fileStream_write v (s\<lparr>downloadedSize := n\<rparr>)) \<le> backlog s + 1"
  by (auto simp: backlog_def fileStream_write_def split: option.splits)

lemma end_backlog: "backlog (fileStream_end s) = backlog s"
  by (auto simp: backlog_def fileStream_end_def split: option.splits)

lemma writeToFile_backlog:
  "backlog (state_of (writeToFile lbl t es s)) \<le> backlog s + length (chunks es)"
proof (induction lbl t es s rule: writeToFile.induct)
  case (3 lbl t es s)
  then show ?case using io_backlog [of s] by (simp add: state_of_def)
next
  case (4 lbl t v es s)
  then show ?case
    using write_backlog [where v = v and s = s and n = "downloadedSize s + length v"] by (simp add: state_of_def)
qed (simp_all add: state_of_def tick_backlog end_backlog)

lemma todo_backlog: "todo s \<le> backlog s + 2"
  by (simp add: todo_def backlog_def split: option.splits)

lemma io_closed_id: "is_closed s \<Longrightarrow> io s = s"
  by (auto simp: is_closed_def io_def split: option.splits)

lemma funpow_io_closed_id: "is_closed s \<Longrightarrow> (io ^^ n) s = s"
  by (induction n) (simp_all add: io_closed_id)

lemma io_last:
  "writing dest s \<Longrightarrow> is_ended s \<Longrightarrow> \<not> is_closed s \<Longrightarrow> todo s \<le> 1 \<Longrightarrow>
   is_closed (io s) \<and> files (io s) dest = Some (accepted s)"
  by (auto simp: writing_def is_ended_def is_closed_def todo_def io_def accepted_def
        on_disk_def queued_def file_at_def split: option.splits list.splits if_splits)

lemma io_more:
  "is_ended s \<Longrightarrow> \<not> is_closed s \<Longrightarrow> 1 < todo s \<Longrightarrow> \<not> is_closed (io s)"
  by (auto simp: is_ended_def is_closed_def todo_def io_def split: option.splits list.splits if_splits)

lemma drain:
  "writing dest s \<Longrightarrow> is_ended s \<Longrightarrow> \<not> is_closed s \<Longrightarrow> todo s \<le> n \<Longrightarrow>
   is_closed ((io ^^ n) s) \<and> files ((io ^^ n) s) dest = Some (accepted s)"
proof (induction n arbitrary: s)
  case 0
  then show ?case
    by (auto simp: todo_def is_closed_def writing_def split: option.splits if_splits)
next
  case (Suc n)
  have unroll: "(io ^^ Suc n) s = (io ^^ n) (io s)"
    by (simp add: funpow_swap1)
  show ?case
  proof (cases "todo s \<le> 1")
    case True
    with Suc.prems have "is_closed (io s) \<and> files (io s) dest = Some (accepted s)"
      by (simp add: io_last)
    then show ?thesis
      by (simp only: unroll funpow_io_closed_id)
  next
    case False
    with Suc.prems have "is_closed ((io ^^ n) (io s)) \<and>
        files ((io ^^ n) (io s)) dest = Some (accepted (io s))"
      by (intro Suc.IH) (simp_all add: io_writing io_ended io_more io_todo)
    with Suc.prems show ?thesis
      by (simp only: unroll io_accepted [where dest = dest])
  qed
qed

lemma started_fields:
  "writing dest (started url dest s)" "\<not> is_ended (started url dest s)"
  "\<not> is_closed (started url dest s)" "interval (started url dest s) = Active"
  "accepted (started url dest s) = []" "backlog (started url dest s) = 0"
  "downloadedSize (started url dest s) = 0" "i (started url dest s) = 0"
  "terminal (started url dest s) = terminal s" "files (started url dest s) = files s"
  "requests (started url dest s) = requests s @ [url]" "stderr (started url dest s) = stderr s"
  by (simp_all add: started_def writing_def is_ended_def is_closed_def accepted_def on_disk_def
        queued_def backlog_def createWriteStream_def)

lemma downloadFile_unfold:
  assumes "fetch url = Fulfilled r" and "ok r" and "has_body r"
  shows "downloadFile fetch url dest text_arg es s =
     (let W = state_of (writeToFile (label text_arg) (totaledSizeMB_of r) es (started url dest s))
      in case ending es of
           Resolved \<Rightarrow>
             (Resolved,
              logUpdate (final_line text_arg r (downloadedSize W)) (W\<lparr>interval := Cleared\<rparr>),
              remaining es)
         | Rejected e \<Rightarrow> (Rejected e, W, remaining es)
         | Pending \<Rightarrow> (Pending, W, remaining es))"
proof -
  obtain out W rest where
    w: "writeToFile (label text_arg) (totaledSizeMB_of r) es (started url dest s) = (out, W, rest)"
    by (metis prod.collapse)
  have "out = ending es" and "rest = remaining es"
    using writeToFile_outcome [of "label text_arg" "totaledSizeMB_of r" es "started url dest s"]
      writeToFile_rest [of "label text_arg" "totaledSizeMB_of r" es "started url dest s"] w
    by simp_all
  with w assms show ?thesis
    by (simp add: downloadFile_def Let_def label_def totaledSizeMB_of_def started_def
          final_line_def state_of_def split: outcome.splits)
qed

lemma downloadFile_Resolved:
  assumes "downloadFile fetch url dest text_arg es s = (Resolved, s', rest)"
  shows "\<exists>r. fetch url = Fulfilled r \<and> ok r \<and> has_body r \<and> ending es = Resolved"
proof (cases "fetch url")
  case (Fulfilled r)
  with assms have "ok r" and "has_body r"
    by (auto simp: downloadFile_def Let_def split: if_splits)
  moreover from this Fulfilled assms have "ending es = Resolved"
    by (auto simp: downloadFile_unfold Let_def split: outcome.splits)
  ultimately show ?thesis using Fulfilled by simp
next
  case (Refused e)
  with assms show ?thesis by (simp add: downloadFile_def Let_def)
next
  case Stalled
  with assms show ?thesis by (simp add: downloadFile_def Let_def)
qed

lemma chunks_append:
  "chunks (p @ q) = chunks p @ (if ending p = Pending then chunks q else [])"
  by (induction p rule: chunks.induct) simp_all

lemma ending_append: "ending (p @ q) = (if ending p = Pending then ending q else ending p)"
  by (induction p rule: ending.induct) simp_all

lemma remaining_append:
  "remaining (p @ q) = (if ending p = Pending then remaining q else remaining p @ q)"
  by (induction p rule: remaining.induct) simp_all

lemma writeToFile_append:
  "ending p = Pending \<Longrightarrow>
   writeToFile lbl t (p @ q) s = writeToFile lbl t q (state_of (writeToFile lbl t p s))"
  by (induction lbl t p s rule: writeToFile.induct) (simp_all add: state_of_def)

lemma writeToFile_i:
  "interval s = Active \<Longrightarrow> i (state_of (writeToFile lbl t es s)) = i s + length (rendered lbl t (i s) (downloadedSize s) es)"
  by (induction lbl t es s rule: writeToFile.induct)
     (simp_all add: state_of_def tick_fields io_fields write_fields end_fields tick_active)

lemma rendered_frames:
  "l \<in> set (rendered lbl t k d es) \<Longrightarrow> \<exists>f \<in> set loadingFrames. prefix f l"
proof (induction lbl t k d es rule: rendered.induct)
  case (2 lbl t k d es)
  have "loadingFrames ! (k mod 10) \<in> set loadingFrames"
    by (simp add: length_loadingFrames)
  moreover have "prefix (loadingFrames ! (k mod 10)) (progress_line (loadingFrames ! (k mod 10)) lbl a t)" for a
    by (simp add: progress_line_def)
  ultimately show ?case
    using 2 by auto
qed simp_all

lemma rendered_unknown:
  "l \<in> set (rendered lbl ''unknown'' k d es) \<Longrightarrow>
   \<exists>mark n. l = progress_line mark lbl (toFixed2 (of_nat n / 1024 / 1024)) ''unknown''"
  by (induction lbl "''unknown''" k d es rule: rendered.induct) auto

lemma successMark_no_frame: "f \<in> set loadingFrames \<Longrightarrow> \<not> prefix f (progress_line successMark lbl a b)"
  by (auto simp: loadingFrames_def successMark_def progress_line_def)

lemma finish_fields:
  "writing dest (logUpdate l (W\<lparr>interval := c\<rparr>)) = writing dest W"
  "is_ended (logUpdate l (W\<lparr>interval := c\<rparr>)) = is_ended W"
  "is_closed (logUpdate l (W\<lparr>interval := c\<rparr>)) = is_closed W"
  "accepted (logUpdate l (W\<lparr>interval := c\<rparr>)) = accepted W"
  "backlog (logUpdate l (W\<lparr>interval := c\<rparr>)) = backlog W"
  "downloadedSize (logUpdate l (W\<lparr>interval := c\<rparr>)) = downloadedSize W"
  "interval (logUpdate l (W\<lparr>interval := c\<rparr>)) = c"
  "terminal (logUpdate l (W\<lparr>interval := c\<rparr>)) = terminal W @ [l]"
  "files (logUpdate l (W\<lparr>interval := c\<rparr>)) = files W"
  "requests (logUpdate l (W\<lparr>interval := c\<rparr>)) = requests W"
  "fileStream (logUpdate l (W\<lparr>interval := c\<rparr>)) = fileStream W"
  by (simp_all add: logUpdate_def writing_def is_ended_def is_closed_def accepted_def on_disk_def
        queued_def backlog_def file_at_def split: option.splits)

lemma downloadFile_looping:
  assumes "fetch url = Fulfilled r" and "ok r" and "has_body r" and "ending es \<noteq> Resolved"
  shows "downloadFile fetch url dest text_arg es s =
     (ending es,
      state_of (writeToFile (label text_arg) (totaledSizeMB_of r) es (started url dest s)),
      remaining es)"
  using assms by (simp add: downloadFile_unfold Let_def split: outcome.splits)

lemma downloadFile_finished:
  assumes "fetch url = Fulfilled r" and "ok r" and "has_body r" and "ending es = Resolved"
  shows "downloadFile fetch url dest text_arg es s =
     (Resolved,
      logUpdate
        (final_line text_arg r
           (downloadedSize
              (state_of (writeToFile (label text_arg) (totaledSizeMB_of r) es (started url dest s)))))
        ((state_of (writeToFile (label text_arg) (totaledSizeMB_of r) es (started url dest s)))
           \<lparr>interval := Cleared\<rparr>),
      remaining es)"
  using assms by (simp add: downloadFile_unfold Let_def)

lemma downloadFile_outcome:
  assumes "fetch url = Fulfilled r" and "ok r" and "has_body r"
  shows "fst (downloadFile fetch url dest text_arg es s) = ending es"
  using assms by (simp add: downloadFile_unfold Let_def split: outcome.splits)

lemma downloadFile_remaining:
  assumes "fetch url = Fulfilled r" and "ok r" and "has_body r"
  shows "snd (snd (downloadFile fetch url dest text_arg es s)) = remaining es"
  using assms by (simp add: downloadFile_unfold Let_def split: outcome.splits)

lemma resolved_state:
  assumes "downloadFile fetch url dest text_arg es s = (Resolved, s', rest)"
  shows "writing dest s' \<and> is_ended s' \<and> \<not> is_closed s' \<and> accepted s' = concat (chunks es) \<and>
         backlog s' \<le> length (chunks es) \<and> downloadedSize s' = length (concat (chunks es)) \<and>
         interval s' = Cleared"
proof -
  from assms obtain r where r: "fetch url = Fulfilled r" "ok r" "has_body r" "ending es = Resolved"
    using downloadFile_Resolved by blast
  let ?s0 = "started url dest s"
  let ?W = "state_of (writeToFile (label text_arg) (totaledSizeMB_of r) es ?s0)"
  have s': "s' = logUpdate (final_line text_arg r (downloadedSize ?W)) (?W\<lparr>interval := Cleared\<rparr>)"
    using assms r
      downloadFile_finished [where fetch = fetch and url = url and r = r and es = es
        and dest = dest and text_arg = text_arg and s = s]
    by simp
  have "writing dest ?W"
    by (simp add: writeToFile_writing started_fields)
  moreover have "is_ended ?W"
    using r(4) by (simp add: writeToFile_ended [where dest = dest] started_fields)
  moreover have "\<not> is_closed ?W"
    by (simp add: writeToFile_not_closed started_fields)
  moreover have "accepted ?W = concat (chunks es)"
    by (simp add: writeToFile_accepted [where dest = dest] started_fields)
  moreover have "backlog ?W \<le> length (chunks es)"
    using writeToFile_backlog [of "label text_arg" "totaledSizeMB_of r" es ?s0]
    by (simp add: started_fields)
  moreover have "downloadedSize ?W = length (concat (chunks es))"
    by (simp add: writeToFile_size started_fields)
  ultimately show ?thesis
    by (simp only: s' finish_fields) simp
qed

lemma resolved_drained:
  assumes "downloadFile fetch url dest text_arg es s = (Resolved, s', rest)"
    and "length (chunks es) + 2 \<le> n"
  shows "is_closed ((io ^^ n) s') \<and> files ((io ^^ n) s') dest = Some (concat (chunks es))"
proof -
  note st = resolved_state [OF assms(1)]
  have "todo s' \<le> n"
    using todo_backlog [of s'] st assms(2) by linarith
  with st show ?thesis
    using drain [of dest s' n] by simp
qed

subsection \<open>A failed status\<close>

text \<open>
  Claim C3. When the response is not ok, downloadFile rejects with an Error whose message
  carries the status text, and it does so at once: no event of the event loop is
  consumed, no write stream is created, the file system and the terminal are as before,
  and no timer is set. The only trace of the call is the request itself.
\<close>

theorem downloadFile_rejects_failed_status:
  assumes "fetch url = Fulfilled r" and "\<not> ok r"
  shows "downloadFile fetch url dest text_arg es s =
           (Rejected (Error (''Failed to download file: '' @ statusText r)),
            s\<lparr>requests := requests s @ [url]\<rparr>, es) \<and>
         fileStream (state_of (downloadFile fetch url dest text_arg es s)) = fileStream s \<and>
         files (state_of (downloadFile fetch url dest text_arg es s)) = files s \<and>
         terminal (state_of (downloadFile fetch url dest text_arg es s)) = terminal s \<and>
         interval (state_of (downloadFile fetch url dest text_arg es s)) = interval s"
  using assms by (simp add: downloadFile_def Let_def state_of_def)

theorem downloadFile_rejects_failed_status_witness:
  "(\<lambda>u. Fulfilled not_found) ''u'' = Fulfilled not_found \<and> \<not> ok not_found \<and>
   fst (downloadFile (\<lambda>u. Fulfilled not_found) ''u'' ''Lavalink.jar'' None example_events example_state) =
     Rejected (Error ''Failed to download file: Not Found'') \<and>
   snd (snd (downloadFile (\<lambda>u. Fulfilled not_found) ''u'' ''Lavalink.jar'' None example_events example_state)) =
     example_events \<and>
   fileStream (state_of (downloadFile (\<lambda>u. Fulfilled not_found) ''u'' ''Lavalink.jar'' None example_events example_state)) = None \<and>
   files (state_of (downloadFile (\<lambda>u. Fulfilled not_found) ''u'' ''Lavalink.jar'' None example_events example_state)) ''Lavalink.jar'' = Some [9, 9] \<and>
   terminal (state_of (downloadFile (\<lambda>u. Fulfilled not_found) ''u'' ''Lavalink.jar'' None example_events example_state)) = []"
proof -
  have h1: "(\<lambda>u. Fulfilled not_found) ''u'' = Fulfilled not_found"
    by simp
  have h2: "\<not> ok not_found"
    by (simp add: not_found_def)
  have st: "statusText not_found = ''Not Found''"
    by (simp add: not_found_def)
  show ?thesis
    using downloadFile_rejects_failed_status
      [where fetch = "\<lambda>u. Fulfilled not_found" and url = "''u''" and r = not_found
         and dest = "''Lavalink.jar''" and text_arg = None and es = example_events
         and s = example_state, OF h1 h2]
      h2
    by (simp add: st example_state_def state_of_def)
qed

lemma example_run:
  "fst (downloadFile (\<lambda>u. Fulfilled (ok_response None)) ''u'' ''Lavalink.jar'' None example_events example_state) = Resolved"
  by (simp add: downloadFile_outcome [where r = "ok_response None"] ok_response_def
        example_events_def)

lemma example_chunks: "chunks example_events = [[1, 2], [3]]"
  by (simp add: example_events_def)

lemma downloadFile_null_body:
  assumes "fetch url = Fulfilled r" and "ok r" and "\<not> has_body r"
  shows "downloadFile fetch url dest text_arg es s = (Rejected NullBody, started url dest s, es)"
  using assms by (simp add: downloadFile_def Let_def started_def)

lemma downloadFile_not_ok:
  assumes "fetch url = Fulfilled r" and "\<not> ok r"
  shows "state_of (downloadFile fetch url dest text_arg es s) = s\<lparr>requests := requests s @ [url]\<rparr>"
  using assms by (simp add: downloadFile_def Let_def state_of_def)

lemma downloadFile_no_response:
  assumes "\<forall>r. fetch url \<noteq> Fulfilled r"
  shows "state_of (downloadFile fetch url dest text_arg es s) = s\<lparr>requests := requests s @ [url]\<rparr>"
  using assms by (cases "fetch url") (simp_all add: downloadFile_def Let_def state_of_def)

lemma downloadFile_state:
  assumes "fetch url = Fulfilled r" and "ok r" and "has_body r"
  shows "state_of (downloadFile fetch url dest text_arg es s) =
     (let W = state_of (writeToFile (label text_arg) (totaledSizeMB_of r) es (started url dest s))
      in if ending es = Resolved
         then logUpdate (final_line text_arg r (downloadedSize W)) (W\<lparr>interval := Cleared\<rparr>)
         else W)"
  using assms
  by (simp add: downloadFile_unfold [where r = r] Let_def state_of_def split: outcome.splits)

lemma downloadFile_size:
  assumes "fetch url = Fulfilled r" and "ok r" and "has_body r"
  shows "downloadedSize (state_of (downloadFile fetch url dest text_arg es s)) =
           length (concat (chunks es))"
  using assms
  by (simp add: downloadFile_state [where r = r] Let_def finish_fields writeToFile_size
        started_fields)

lemma downloadFile_accepted:
  assumes "fetch url = Fulfilled r" and "ok r" and "has_body r"
  shows "accepted (state_of (downloadFile fetch url dest text_arg es s)) = concat (chunks es)"
  using assms
  by (simp add: downloadFile_state [where r = r] Let_def finish_fields
        writeToFile_accepted [where dest = dest] started_fields)

lemma downloadFile_terminal:
  assumes "fetch url = Fulfilled r" and "ok r" and "has_body r"
  shows "terminal (state_of (downloadFile fetch url dest text_arg es s)) =
           terminal s @ rendered (label text_arg) (totaledSizeMB_of r) 0 0 es @
           (if ending es = Resolved
            then [final_line text_arg r (length (concat (chunks es)))] else [])"
  using assms
  by (simp add: downloadFile_state [where r = r] Let_def finish_fields writeToFile_size
        writeToFile_terminal started_fields)

lemma downloadFile_interval:
  assumes "fetch url = Fulfilled r" and "ok r" and "has_body r"
  shows "interval (state_of (downloadFile fetch url dest text_arg es s)) =
           (if ending es = Resolved then Cleared else Active)"
  using assms
  by (simp add: downloadFile_state [where r = r] Let_def finish_fields writeToFile_interval
        started_fields)

lemma downloadFile_requests:
  "requests (state_of (downloadFile fetch url dest text_arg es s)) = requests s @ [url]"
proof (cases "\<exists>r. fetch url = Fulfilled r \<and> ok r")
  case False
  then show ?thesis
    by (cases "fetch url") (auto simp: downloadFile_def Let_def state_of_def)
next
  case True
  then obtain r where r: "fetch url = Fulfilled r" "ok r" by blast
  show ?thesis
  proof (cases "has_body r")
    case True
    with r show ?thesis
      by (simp add: downloadFile_state [where r = r] Let_def finish_fields writeToFile_requests
            started_fields)
  next
    case False
    with r show ?thesis
      by (simp add: downloadFile_null_body [where r = r] state_of_def started_fields)
  qed
qed

lemma downloadFile_dom:
  "dom (files s) \<subseteq> dom (files (state_of (downloadFile fetch url dest text_arg es s)))"
proof (cases "\<exists>r. fetch url = Fulfilled r \<and> ok r")
  case False
  then show ?thesis
    by (cases "fetch url") (auto simp: downloadFile_def Let_def state_of_def)
next
  case True
  then obtain r where r: "fetch url = Fulfilled r" "ok r" by blast
  show ?thesis
  proof (cases "has_body r")
    case True
    have "dom (files (started url dest s)) \<subseteq>
        dom (files (state_of (writeToFile (label text_arg) (totaledSizeMB_of r) es (started url dest s))))"
      by (rule writeToFile_dom)
    with True r show ?thesis
      by (simp add: downloadFile_state [where r = r] Let_def finish_fields started_fields)
  next
    case False
    with r show ?thesis
      by (simp add: downloadFile_null_body [where r = r] state_of_def started_fields)
  qed
qed

lemma downloadFile_append:
  assumes "fetch url = Fulfilled r" and "ok r" and "has_body r" and "ending p = Pending"
  shows "state_of (writeToFile (label text_arg) (totaledSizeMB_of r) (p @ q) (started url dest s)) =
         state_of (writeToFile (label text_arg) (totaledSizeMB_of r) q
           (state_of (downloadFile fetch url dest text_arg p s)))"
  using assms
  by (simp add: downloadFile_state [where r = r] Let_def writeToFile_append)

lemma writeToFile_Tick:
  "state_of (writeToFile lbl t [Tick] s) = tick lbl t s"
  by (simp add: state_of_def)

lemma toFixed2_megabytes:
  "toFixed2 (of_nat n / 1024 / 1024) =
     (let k = (n * 100 + 524288) div 1048576
      in decimal (k div 100) @ ''.'' @ [digit (k div 10), digit k])"
proof -
  have "(of_nat n / 1024 / 1024 :: rat) * 100 + 1 / 2 =
        of_int (int (n * 100 + 524288)) / of_int 1048576"
    by (simp add: field_simps)
  then have "\<lfloor>(of_nat n / 1024 / 1024 :: rat) * 100 + 1 / 2\<rfloor> =
        int (n * 100 + 524288) div 1048576"
    by (simp only: floor_divide_of_int_eq)
  then have "nat \<lfloor>\<bar>of_nat n / 1024 / 1024 :: rat\<bar> * 100 + 1 / 2\<rfloor> =
        (n * 100 + 524288) div 1048576"
    by (simp add: nat_div_distrib zdiv_int)
  then show ?thesis
    by (simp add: toFixed2_def Let_def)
qed

lemma toFixed2_5MB: "toFixed2 (of_nat 5242880 / 1024 / 1024) = ''5.00''"
  using toFixed2_megabytes [of 5242880] by (simp add: decimal.simps digit_def Let_def)

lemma toFixed2_5243: "toFixed2 (of_nat 5243 / 1024 / 1024) = ''0.01''"
  using toFixed2_megabytes [of 5243] by (simp add: decimal.simps digit_def Let_def)

lemma toFixed2_123456789: "toFixed2 (of_nat 123456789 / 1024 / 1024) = ''117.74''"
  using toFixed2_megabytes [of 123456789] by (simp add: decimal.simps digit_def Let_def)

lemma toFixed2_0: "toFixed2 (of_nat 0 / 1024 / 1024) = ''0.00''"
  using toFixed2_megabytes [of 0] by (simp add: decimal.simps digit_def Let_def)

lemma toFixed2_2: "toFixed2 (of_nat 2 / 1024 / 1024) = ''0.00''"
  using toFixed2_megabytes [of 2] by (simp add: decimal.simps digit_def Let_def)

lemma toFixed2_3: "toFixed2 (of_nat 3 / 1024 / 1024) = ''0.00''"
  using toFixed2_megabytes [of 3] by (simp add: decimal.simps digit_def Let_def)

lemma tick_cleared: "interval s = Cleared \<Longrightarrow> tick lbl t s = s"
  by (simp add: tick_def)

lemma successMark_prefix: "prefix successMark (progress_line successMark lbl a b)"
  by (simp add: progress_line_def)

lemma state_of_triple: "state_of (out, s, rest) = s"
  by (simp add: state_of_def)

lemma started_io:
  "files (io (started url dest s)) dest = Some []"
  by (simp add: io_open [where ws = "createWriteStream dest"] started_def createWriteStream_def)

lemma resolved_stream:
  assumes "downloadFile fetch url dest text_arg es s = (Resolved, s', rest)"
  shows "\<exists>ws. fileStream s' = Some ws \<and> path ws = dest \<and> flags ws = Flag_w \<and>
              ended ws \<and> \<not> closed ws"
  using resolved_state [OF assms]
  by (auto simp: writing_def is_ended_def is_closed_def split: option.splits)

subsection \<open>An existing file is truncated\<close>

text \<open>
  Claim C8. The write stream is created with the default flags \<^verbatim>\<open>'w'\<close>. Its open, the
  first file-system operation after the call has started, truncates a file that exists at
  the destination; and when the call has resolved and the stream has finished its queued
  operations, the file holds the bytes of the body and nothing of the old contents.
\<close>

theorem downloadFile_truncates:
  assumes "files s dest = Some old"
    and "downloadFile fetch url dest text_arg es s = (Resolved, s', rest)"
    and "length (chunks es) + 2 \<le> n"
  shows "(\<exists>ws. fileStream s' = Some ws \<and> path ws = dest \<and> flags ws = Flag_w) \<and>
         files (state_of (downloadFile fetch url dest text_arg [IO] s)) dest = Some [] \<and>
         files ((io ^^ n) s') dest = Some (concat (chunks es))"
proof -
  from assms(2) obtain r where r: "fetch url = Fulfilled r" "ok r" "has_body r"
    using downloadFile_Resolved by blast
  have "state_of (downloadFile fetch url dest text_arg [IO] s) = io (started url dest s)"
    using r by (simp add: downloadFile_state [where r = r] Let_def state_of_triple)
  then have "files (state_of (downloadFile fetch url dest text_arg [IO] s)) dest = Some []"
    by (simp add: started_io)
  moreover have "\<exists>ws. fileStream s' = Some ws \<and> path ws = dest \<and> flags ws = Flag_w"
    using resolved_stream [OF assms(2)] by blast
  moreover have "files ((io ^^ n) s') dest = Some (concat (chunks es))"
    using resolved_drained [OF assms(2,3)] by simp
  ultimately show ?thesis by (intro conjI)
qed

theorem downloadFile_truncates_witness:
  "files example_state ''Lavalink.jar'' = Some [9, 9] \<and>
   fst (downloadFile (\<lambda>u. Fulfilled (ok_response None)) ''u'' ''Lavalink.jar'' None
      example_events example_state) = Resolved \<and>
   length (chunks example_events) + 2 \<le> (4::nat) \<and>
   files (state_of (downloadFile (\<lambda>u. Fulfilled (ok_response None)) ''u'' ''Lavalink.jar'' None
      [IO] example_state)) ''Lavalink.jar'' = Some [] \<and>
   files ((io ^^ 4) (state_of (downloadFile (\<lambda>u. Fulfilled (ok_response None)) ''u''
      ''Lavalink.jar'' None example_events example_state))) ''Lavalink.jar'' = Some [1, 2, 3]"
proof -
  let ?D = "downloadFile (\<lambda>u. Fulfilled (ok_response None)) ''u'' ''Lavalink.jar'' None
      example_events example_state"
  have old: "files example_state ''Lavalink.jar'' = Some [9, 9]"
    by (simp add: example_state_def)
  have run: "?D = (Resolved, state_of ?D, snd (snd ?D))"
    using example_run by (simp add: state_of_def prod_eq_iff)
  have n: "length (chunks example_events) + 2 \<le> (4::nat)"
    by (simp add: example_chunks)
  note T = downloadFile_truncates [OF old run n]
  have a: "files (state_of (downloadFile (\<lambda>u. Fulfilled (ok_response None)) ''u'' ''Lavalink.jar''
      None [IO] example_state)) ''Lavalink.jar'' = Some []"
    using T [THEN conjunct2] by (rule conjunct1)
  have b: "files ((io ^^ 4) (state_of ?D)) ''Lavalink.jar'' = Some [1, 2, 3]"
    using T [THEN conjunct2, THEN conjunct2] by (simp add: example_chunks)
  from old example_run n a b show ?thesis
    by (intro conjI)
qed

subsection \<open>Resolution and the flush\<close>

text \<open>
  Claim C2, at a concrete run. The response is ok and delivers one chunk of three bytes
  and then the end of the stream, with no file-system completion in between; a file of
  two bytes exists at the destination. downloadFile resolves and has printed the final
  line, yet the stream has only been told to end: it is not closed, it has not even
  opened the file, the three bytes are still queued, and the file on disk is the old one.
  \<^verbatim>\<open>fileStream.end()\<close> (line 56) is not awaited, and neither is the stream's
  \<^verbatim>\<open>finish\<close> or \<^verbatim>\<open>close\<close> event.
\<close>

theorem downloadFile_resolves_before_flush:
  "fst (downloadFile (\<lambda>u. Fulfilled (ok_response None)) ''u'' ''Lavalink.jar'' None
      [Read (Value [1, 2, 3]), Read EndOfStream] example_state) = Resolved \<and>
   fileStream (state_of (downloadFile (\<lambda>u. Fulfilled (ok_response None)) ''u'' ''Lavalink.jar'' None
      [Read (Value [1, 2, 3]), Read EndOfStream] example_state)) =
     Some \<lparr>path = ''Lavalink.jar'', flags = Flag_w, opened = False, pending = [[1, 2, 3]],
            ended = True, closed = False\<rparr> \<and>
   files (state_of (downloadFile (\<lambda>u. Fulfilled (ok_response None)) ''u'' ''Lavalink.jar'' None
      [Read (Value [1, 2, 3]), Read EndOfStream] example_state)) ''Lavalink.jar'' = Some [9, 9] \<and>
   last (terminal (state_of (downloadFile (\<lambda>u. Fulfilled (ok_response None)) ''u'' ''Lavalink.jar''
      None [Read (Value [1, 2, 3]), Read EndOfStream] example_state))) =
     progress_line successMark ''Downloading...'' ''0.00'' ''unknown''"
proof -
  let ?D = "downloadFile (\<lambda>u. Fulfilled (ok_response None)) ''u'' ''Lavalink.jar'' None
      [Read (Value [1, 2, 3]), Read EndOfStream] example_state"
  have ok: "ok (ok_response None)" "has_body (ok_response None)"
    by (simp_all add: ok_response_def)
  have res: "fst ?D = Resolved"
    using ok by (simp add: downloadFile_outcome [where r = "ok_response None"])
  have st: "state_of ?D =
      logUpdate (final_line None (ok_response None) 3)
        ((fileStream_end (fileStream_write [1, 2, 3]
            ((started ''u'' ''Lavalink.jar'' example_state)\<lparr>downloadedSize := 3\<rparr>)))
         \<lparr>interval := Cleared\<rparr>)"
    using ok
    by (simp add: downloadFile_state [where r = "ok_response None"] Let_def state_of_triple
          end_fields write_fields started_fields eval_nat_numeral)
  have fs: "fileStream (state_of ?D) =
     Some \<lparr>path = ''Lavalink.jar'', flags = Flag_w, opened = False, pending = [[1, 2, 3]],
            ended = True, closed = False\<rparr>"
    by (simp add: st logUpdate_def fileStream_end_def fileStream_write_def started_def
          createWriteStream_def)
  have fl: "files (state_of ?D) ''Lavalink.jar'' = Some [9, 9]"
  proof -
    have "files (state_of ?D) = files example_state"
      by (simp add: st finish_fields end_fields write_fields started_fields)
    then show ?thesis
      by (simp add: example_state_def)
  qed
  have ln: "last (terminal (state_of ?D)) =
     progress_line successMark ''Downloading...'' ''0.00'' ''unknown''"
  proof -
    have "last (terminal (state_of ?D)) = final_line None (ok_response None) 3"
      by (simp add: st finish_fields)
    then show ?thesis
      using toFixed2_3
      by (simp add: final_line_def label_def totaledSizeMB_of_def ok_response_def)
  qed
  from res fs fl ln show ?thesis
    by (intro conjI)
qed

lemma downloadFile_size_any:
  "downloadedSize (state_of (downloadFile fetch url dest text_arg es s)) =
     (case fetch url of
        Fulfilled r \<Rightarrow>
          if ok r then (if has_body r then length (concat (chunks es)) else 0)
          else downloadedSize s
      | Refused e \<Rightarrow> downloadedSize s
      | Stalled \<Rightarrow> downloadedSize s)"
proof (cases "fetch url")
  case (Fulfilled r)
  show ?thesis
  proof (cases "ok r")
    case False
    with Fulfilled show ?thesis
      by (simp add: downloadFile_not_ok [where r = r])
  next
    case ok: True
    show ?thesis
    proof (cases "has_body r")
      case True
      with Fulfilled ok show ?thesis
        by (simp add: downloadFile_size [where r = r])
    next
      case False
      with Fulfilled ok show ?thesis
        by (simp add: downloadFile_null_body [where r = r] state_of_triple started_fields)
    qed
  qed
next
  case (Refused e)
  then show ?thesis by (simp add: downloadFile_no_response)
next
  case Stalled
  then show ?thesis by (simp add: downloadFile_no_response)
qed

lemma length_concat_chunks_append:
  "length (concat (chunks p)) \<le> length (concat (chunks (p @ q)))"
  by (simp add: chunks_append)

subsection \<open>The counter\<close>

text \<open>
  Claim C4. The counter never decreases: the state after more events has a counter at
  least as large as the state after fewer (the states after prefixes of the events are
  the states the transfer passes through). Each chunk read adds its length, and nothing
  else changes the counter. When the call resolves, the counter is the sum of the lengths
  of the chunks, and this is the size of the destination file once the stream has
  finished its queued operations.
\<close>

theorem downloadedSize_monotone:
  "downloadedSize (state_of (downloadFile fetch url dest text_arg p s)) \<le>
     downloadedSize (state_of (downloadFile fetch url dest text_arg (p @ q) s)) \<and>
   (fetch url = Fulfilled r \<and> ok r \<and> has_body r \<and> ending p = Pending \<longrightarrow>
      downloadedSize (state_of (downloadFile fetch url dest text_arg (p @ [Read (Value v)]) s)) =
        downloadedSize (state_of (downloadFile fetch url dest text_arg p s)) + length v \<and>
      downloadedSize (state_of (downloadFile fetch url dest text_arg (p @ [Tick]) s)) =
        downloadedSize (state_of (downloadFile fetch url dest text_arg p s)) \<and>
      downloadedSize (state_of (downloadFile fetch url dest text_arg (p @ [IO]) s)) =
        downloadedSize (state_of (downloadFile fetch url dest text_arg p s))) \<and>
   (downloadFile fetch url dest text_arg es s = (Resolved, s', rest) \<longrightarrow>
      downloadedSize s' = sum_list (map length (chunks es)) \<and>
      (length (chunks es) + 2 \<le> n \<longrightarrow>
         (\<exists>d. files ((io ^^ n) s') dest = Some d \<and> length d = downloadedSize s')))"
proof -
  have mono: "downloadedSize (state_of (downloadFile fetch url dest text_arg p s)) \<le>
     downloadedSize (state_of (downloadFile fetch url dest text_arg (p @ q) s))"
    using length_concat_chunks_append [of p q]
    by (simp add: downloadFile_size_any split: fetched.splits)
  have step: "downloadedSize (state_of (downloadFile fetch url dest text_arg (p @ [Read (Value v)]) s)) =
        downloadedSize (state_of (downloadFile fetch url dest text_arg p s)) + length v \<and>
      downloadedSize (state_of (downloadFile fetch url dest text_arg (p @ [Tick]) s)) =
        downloadedSize (state_of (downloadFile fetch url dest text_arg p s)) \<and>
      downloadedSize (state_of (downloadFile fetch url dest text_arg (p @ [IO]) s)) =
        downloadedSize (state_of (downloadFile fetch url dest text_arg p s))"
    if "fetch url = Fulfilled r \<and> ok r \<and> has_body r \<and> ending p = Pending"
    using that by (simp add: downloadFile_size [where r = r] chunks_append)
  have fin: "downloadedSize s' = sum_list (map length (chunks es)) \<and>
      (length (chunks es) + 2 \<le> n \<longrightarrow>
         (\<exists>d. files ((io ^^ n) s') dest = Some d \<and> length d = downloadedSize s'))"
    if run: "downloadFile fetch url dest text_arg es s = (Resolved, s', rest)"
  proof -
    have sz: "downloadedSize s' = length (concat (chunks es))"
      using resolved_state [OF run] by simp
    then have "downloadedSize s' = sum_list (map length (chunks es))"
      by (simp add: length_concat)
    moreover have "\<exists>d. files ((io ^^ n) s') dest = Some d \<and> length d = downloadedSize s'"
      if "length (chunks es) + 2 \<le> n"
      using resolved_drained [OF run that] sz by simp
    ultimately show ?thesis by blast
  qed
  from mono step fin show ?thesis by blast
qed

theorem downloadedSize_monotone_witness:
  "downloadedSize (state_of (downloadFile (\<lambda>u. Fulfilled (ok_response None)) ''u'' ''Lavalink.jar''
      None [Tick, Read (Value [1, 2])] example_state)) = 2 \<and>
   downloadedSize (state_of (downloadFile (\<lambda>u. Fulfilled (ok_response None)) ''u'' ''Lavalink.jar''
      None ([Tick, Read (Value [1, 2])] @ [Read (Value [3])]) example_state)) = 2 + length [3::byte] \<and>
   fst (downloadFile (\<lambda>u. Fulfilled (ok_response None)) ''u'' ''Lavalink.jar'' None
      example_events example_state) = Resolved \<and>
   downloadedSize (state_of (downloadFile (\<lambda>u. Fulfilled (ok_response None)) ''u'' ''Lavalink.jar''
      None example_events example_state)) = 3 \<and>
   (\<exists>d. files ((io ^^ 4) (state_of (downloadFile (\<lambda>u. Fulfilled (ok_response None)) ''u''
      ''Lavalink.jar'' None example_events example_state))) ''Lavalink.jar'' = Some d \<and>
      length d = 3)"
proof -
  let ?f = "\<lambda>u::string. Fulfilled (ok_response None)"
  let ?p = "[Tick, Read (Value [1, 2])]"
  let ?D = "downloadFile ?f ''u'' ''Lavalink.jar'' None example_events example_state"
  have pre: "?f ''u'' = Fulfilled (ok_response None) \<and> ok (ok_response None) \<and>
      has_body (ok_response None) \<and> ending ?p = Pending"
    by (simp add: ok_response_def)
  have run: "?D = (Resolved, state_of ?D, snd (snd ?D))"
    using example_run by (simp add: state_of_def prod_eq_iff)
  have n: "length (chunks example_events) + 2 \<le> (4::nat)"
    by (simp add: example_chunks)
  note M = downloadedSize_monotone
    [where fetch = ?f and url = "''u''" and dest = "''Lavalink.jar''" and text_arg = None
       and p = ?p and q = "[]" and r = "ok_response None" and v = "[3]" and es = example_events
       and s = example_state and s' = "state_of ?D" and rest = "snd (snd ?D)" and n = 4]
  have a0: "downloadedSize (state_of (downloadFile ?f ''u'' ''Lavalink.jar'' None ?p example_state)) = 2"
    using pre by (simp add: downloadFile_size [where r = "ok_response None"])
  have a1: "downloadedSize (state_of (downloadFile ?f ''u'' ''Lavalink.jar'' None
      (?p @ [Read (Value [3])]) example_state)) = 2 + length [3::byte]"
    using M [THEN conjunct2, THEN conjunct1] pre a0 by simp
  have a2: "downloadedSize (state_of ?D) = 3 \<and>
      (\<exists>d. files ((io ^^ 4) (state_of ?D)) ''Lavalink.jar'' = Some d \<and> length d = 3)"
    using M [THEN conjunct2, THEN conjunct2] run n
    by (auto simp: example_chunks numeral_3_eq_3)
  from a0 a1 example_run a2 show ?thesis
    by (intro conjI) simp_all
qed

lemma read_failure_run:
  assumes "fetch url = Fulfilled r" and "ok r" and "has_body r" and "ending p = Pending"
  shows "downloadFile fetch url dest text_arg (p @ Read (ReadFail e) # q) s =
           (Rejected e, state_of (downloadFile fetch url dest text_arg p s), q)"
proof -
  let ?es = "p @ Read (ReadFail e) # q"
  have e: "ending ?es = Rejected e" and rm: "remaining ?es = q"
    using assms(4) by (simp_all add: ending_append remaining_append)
  have "state_of (writeToFile (label text_arg) (totaledSizeMB_of r) ?es (started url dest s)) =
        state_of (downloadFile fetch url dest text_arg p s)"
    using assms
    by (simp only: downloadFile_append [where r = r and fetch = fetch]) (simp add: state_of_triple)
  then show ?thesis
    using assms(1-3) e rm by (simp add: downloadFile_looping [where r = r])
qed

subsection \<open>A failure in the middle of the body\<close>

text \<open>
  Claim C9. When \<^verbatim>\<open>reader.read()\<close> rejects in the middle of the body, downloadFile
  rejects with the same reason, no later event is consumed, and the state is exactly the
  state the suspended transfer had before the failure: nothing is cleaned up, no file is
  removed, whatever the stream had put at the destination stays. The call has made one
  request and makes no other. The caller, the download step of createLavalink, logs the
  error and ends the process with exit code 1.
\<close>

theorem read_failure_is_final:
  assumes "fetch url = Fulfilled r" and "ok r" and "has_body r" and "ending p = Pending"
  shows "downloadFile fetch url dest text_arg (p @ Read (ReadFail e) # q) s =
           (Rejected e, state_of (downloadFile fetch url dest text_arg p s), q) \<and>
         requests (state_of (downloadFile fetch url dest text_arg (p @ Read (ReadFail e) # q) s)) =
           requests s @ [url] \<and>
         dom (files s) \<subseteq>
           dom (files (state_of (downloadFile fetch url dest text_arg (p @ Read (ReadFail e) # q) s))) \<and>
         (url = ''https://github.com/lavalink-devs/Lavalink/releases/download/'' @ version @
                  ''/Lavalink.jar'' \<and>
          dest = ''Lavalink.jar'' \<and>
          text_arg = Some (''Downloading Lavalink version '' @ version @ ''...'') \<longrightarrow>
            download_jar fetch version (p @ Read (ReadFail e) # q) s =
              (Exit 1,
               console_error ''Failed to download Lavalink:'' e
                 (state_of (downloadFile fetch url dest text_arg p s)),
               q))"
proof -
  note run = read_failure_run
    [where fetch = fetch and url = url and dest = dest and text_arg = text_arg and e = e
       and q = q and s = s, OF assms]
  have rq: "requests (state_of (downloadFile fetch url dest text_arg (p @ Read (ReadFail e) # q) s)) =
           requests s @ [url]"
    by (rule downloadFile_requests)
  have dm: "dom (files s) \<subseteq>
           dom (files (state_of (downloadFile fetch url dest text_arg (p @ Read (ReadFail e) # q) s)))"
    by (rule downloadFile_dom)
  have jar: "url = ''https://github.com/lavalink-devs/Lavalink/releases/download/'' @ version @
                  ''/Lavalink.jar'' \<and>
          dest = ''Lavalink.jar'' \<and>
          text_arg = Some (''Downloading Lavalink version '' @ version @ ''...'') \<longrightarrow>
            download_jar fetch version (p @ Read (ReadFail e) # q) s =
              (Exit 1,
               console_error ''Failed to download Lavalink:'' e
                 (state_of (downloadFile fetch url dest text_arg p s)),
               q)"
  proof
    assume a: "url = ''https://github.com/lavalink-devs/Lavalink/releases/download/'' @ version @
                  ''/Lavalink.jar'' \<and>
          dest = ''Lavalink.jar'' \<and>
          text_arg = Some (''Downloading Lavalink version '' @ version @ ''...'')"
    then have u: "url = ''https://github.com/lavalink-devs/Lavalink/releases/download/'' @
        version @ ''/Lavalink.jar''"
      and d: "dest = ''Lavalink.jar''"
      and t: "text_arg = Some (''Downloading Lavalink version '' @ version @ ''...'')"
      by blast+
    show "download_jar fetch version (p @ Read (ReadFail e) # q) s =
              (Exit 1,
               console_error ''Failed to download Lavalink:'' e
                 (state_of (downloadFile fetch url dest text_arg p s)),
               q)"
      unfolding download_jar_def Let_def
      by (simp only: run [unfolded u d t] u d t prod.case outcome.case)
  qed
  from run rq dm jar show ?thesis
    by (intro conjI)
qed

theorem read_failure_is_final_witness:
  "(\<lambda>u. Fulfilled (ok_response None))
      (''https://github.com/lavalink-devs/Lavalink/releases/download/'' @ ''4.0.8'' @ ''/Lavalink.jar'') =
     Fulfilled (ok_response None) \<and>
   ok (ok_response None) \<and> has_body (ok_response None) \<and>
   ending [Read (Value [1, 2]), IO, IO] = Pending \<and>
   download_jar (\<lambda>u. Fulfilled (ok_response None)) ''4.0.8''
      ([Read (Value [1, 2]), IO, IO] @ Read (ReadFail (External ''terminated'')) # [Tick])
      example_state =
     (Exit 1,
      console_error ''Failed to download Lavalink:'' (External ''terminated'')
        (state_of (downloadFile (\<lambda>u. Fulfilled (ok_response None))
           (''https://github.com/lavalink-devs/Lavalink/releases/download/'' @ ''4.0.8'' @ ''/Lavalink.jar'')
           ''Lavalink.jar'' (Some (''Downloading Lavalink version '' @ ''4.0.8'' @ ''...''))
           [Read (Value [1, 2]), IO, IO] example_state)),
      [Tick]) \<and>
   files (state_of (downloadFile (\<lambda>u. Fulfilled (ok_response None))
           (''https://github.com/lavalink-devs/Lavalink/releases/download/'' @ ''4.0.8'' @ ''/Lavalink.jar'')
           ''Lavalink.jar'' (Some (''Downloading Lavalink version '' @ ''4.0.8'' @ ''...''))
           [Read (Value [1, 2]), IO, IO] example_state)) ''Lavalink.jar'' = Some [1, 2]"
proof -
  let ?f = "\<lambda>u::string. Fulfilled (ok_response None)"
  let ?url = "''https://github.com/lavalink-devs/Lavalink/releases/download/'' @ ''4.0.8'' @ ''/Lavalink.jar''"
  let ?lbl = "Some (''Downloading Lavalink version '' @ ''4.0.8'' @ ''...'')"
  let ?p = "[Read (Value [1, 2]), IO, IO]"
  have h1: "?f ?url = Fulfilled (ok_response None)"
    by simp
  have ok: "ok (ok_response None)" "has_body (ok_response None)"
    by (simp_all add: ok_response_def)
  have pend: "ending ?p = Pending"
    by simp
  note F = read_failure_is_final
    [where fetch = ?f and url = ?url and r = "ok_response None" and p = ?p
       and dest = "''Lavalink.jar''" and text_arg = ?lbl and e = "External ''terminated''"
       and q = "[Tick]" and s = example_state and version = "''4.0.8''", OF h1 ok pend]
  have jar: "download_jar ?f ''4.0.8'' (?p @ Read (ReadFail (External ''terminated'')) # [Tick])
      example_state =
     (Exit 1,
      console_error ''Failed to download Lavalink:'' (External ''terminated'')
        (state_of (downloadFile ?f ?url ''Lavalink.jar'' ?lbl ?p example_state)),
      [Tick])"
    using F [THEN conjunct2, THEN conjunct2, THEN conjunct2] by blast
  have "state_of (downloadFile ?f ?url ''Lavalink.jar'' ?lbl ?p example_state) =
      io (io (fileStream_write [1, 2] ((started ?url ''Lavalink.jar'' example_state)
        \<lparr>downloadedSize := 2\<rparr>)))"
    using ok
    by (simp add: downloadFile_state [where r = "ok_response None"] Let_def state_of_triple
          started_fields eval_nat_numeral)
  then have disk: "files (state_of (downloadFile ?f ?url ''Lavalink.jar'' ?lbl ?p example_state))
      ''Lavalink.jar'' = Some [1, 2]"
    by (simp add: io_def fileStream_write_def started_def createWriteStream_def file_at_def)
  from h1 ok pend jar disk show ?thesis
    by (intro conjI)
qed

lemma tick_line:
  "interval s = Active \<Longrightarrow>
   terminal (tick lbl t s) = terminal s @
     [progress_line (loadingFrames ! (i s mod 10)) lbl
        (toFixed2 (of_nat (downloadedSize s) / 1024 / 1024)) t]"
  by (rule tick_active)

subsection \<open>The timer after a failure\<close>

text \<open>
  Claim C10. \<^verbatim>\<open>clearInterval\<close> stands only after \<^verbatim>\<open>await writeToFile()\<close>, so a
  rejection of the read loop leaves the timer set: the call has rejected, and the next
  tick of the event loop still renders a spinner line. Over all runs with a body the
  timer is cleared exactly when the call resolves.
\<close>

theorem read_failure_keeps_timer:
  assumes "fetch url = Fulfilled r" and "ok r" and "has_body r" and "ending p = Pending"
  shows "fst (downloadFile fetch url dest text_arg (p @ Read (ReadFail e) # q) s) = Rejected e \<and>
         interval (state_of (downloadFile fetch url dest text_arg (p @ Read (ReadFail e) # q) s)) =
           Active \<and>
         terminal (tick (label text_arg) (totaledSizeMB_of r)
             (state_of (downloadFile fetch url dest text_arg (p @ Read (ReadFail e) # q) s))) =
           terminal (state_of (downloadFile fetch url dest text_arg (p @ Read (ReadFail e) # q) s)) @
           [progress_line
              (loadingFrames !
                 (i (state_of (downloadFile fetch url dest text_arg (p @ Read (ReadFail e) # q) s))
                    mod 10))
              (label text_arg)
              (toFixed2 (of_nat (length (concat (chunks p))) / 1024 / 1024))
              (totaledSizeMB_of r)] \<and>
         ((interval (state_of (downloadFile fetch url dest text_arg es s)) = Cleared) =
            (fst (downloadFile fetch url dest text_arg es s) = Resolved))"
proof -
  let ?S = "state_of (downloadFile fetch url dest text_arg (p @ Read (ReadFail e) # q) s)"
  have e: "ending (p @ Read (ReadFail e) # q) = Rejected e"
    using assms(4) by (simp add: ending_append)
  have out: "fst (downloadFile fetch url dest text_arg (p @ Read (ReadFail e) # q) s) = Rejected e"
    using assms(1-3) e by (simp add: downloadFile_outcome [where r = r])
  have act: "interval ?S = Active"
    using assms(1-3) e by (simp add: downloadFile_interval [where r = r])
  have sz: "downloadedSize ?S = length (concat (chunks p))"
    using assms by (simp add: downloadFile_size [where r = r] chunks_append)
  have ln: "terminal (tick (label text_arg) (totaledSizeMB_of r) ?S) =
      terminal ?S @
      [progress_line (loadingFrames ! (i ?S mod 10)) (label text_arg)
         (toFixed2 (of_nat (length (concat (chunks p))) / 1024 / 1024)) (totaledSizeMB_of r)]"
    using tick_line [OF act, of "label text_arg" "totaledSizeMB_of r"] by (simp only: sz)
  have iff: "(interval (state_of (downloadFile fetch url dest text_arg es s)) = Cleared) =
            (fst (downloadFile fetch url dest text_arg es s) = Resolved)"
    using assms(1-3)
    by (simp add: downloadFile_interval [where r = r] downloadFile_outcome [where r = r])
  from out act ln iff show ?thesis
    by (intro conjI)
qed

theorem read_failure_keeps_timer_witness:
  "(\<lambda>u. Fulfilled (ok_response None)) ''u'' = Fulfilled (ok_response None) \<and>
   ok (ok_response None) \<and> has_body (ok_response None) \<and>
   ending [Tick, Read (Value [1, 2])] = Pending \<and>
   fst (downloadFile (\<lambda>u. Fulfilled (ok_response None)) ''u'' ''Lavalink.jar'' None
      ([Tick, Read (Value [1, 2])] @ Read (ReadFail (External ''terminated'')) # []) example_state) =
     Rejected (External ''terminated'') \<and>
   interval (state_of (downloadFile (\<lambda>u. Fulfilled (ok_response None)) ''u'' ''Lavalink.jar'' None
      ([Tick, Read (Value [1, 2])] @ Read (ReadFail (External ''terminated'')) # []) example_state)) =
     Active \<and>
   length (terminal (tick (label None) (totaledSizeMB_of (ok_response None))
      (state_of (downloadFile (\<lambda>u. Fulfilled (ok_response None)) ''u'' ''Lavalink.jar'' None
        ([Tick, Read (Value [1, 2])] @ Read (ReadFail (External ''terminated'')) # [])
        example_state)))) =
     Suc (length (terminal (state_of (downloadFile (\<lambda>u. Fulfilled (ok_response None)) ''u''
        ''Lavalink.jar'' None
        ([Tick, Read (Value [1, 2])] @ Read (ReadFail (External ''terminated'')) # [])
        example_state))))"
proof -
  let ?f = "\<lambda>u::string. Fulfilled (ok_response None)"
  let ?p = "[Tick, Read (Value [1, 2])]"
  have h1: "?f ''u'' = Fulfilled (ok_response None)"
    by simp
  have ok: "ok (ok_response None)" "has_body (ok_response None)"
    by (simp_all add: ok_response_def)
  have pend: "ending ?p = Pending"
    by simp
  note K = read_failure_keeps_timer
    [where fetch = ?f and url = "''u''" and r = "ok_response None" and p = ?p
       and dest = "''Lavalink.jar''" and text_arg = None and e = "External ''terminated''"
       and q = "[]" and s = example_state and es = "[]", OF h1 ok pend]
  have a: "fst (downloadFile ?f ''u'' ''Lavalink.jar'' None
      (?p @ Read (ReadFail (External ''terminated'')) # []) example_state) =
     Rejected (External ''terminated'')"
    using K by (rule conjunct1)
  have b: "interval (state_of (downloadFile ?f ''u'' ''Lavalink.jar'' None
      (?p @ Read (ReadFail (External ''terminated'')) # []) example_state)) = Active"
    using K [THEN conjunct2] by (rule conjunct1)
  have c: "length (terminal (tick (label None) (totaledSizeMB_of (ok_response None))
      (state_of (downloadFile ?f ''u'' ''Lavalink.jar'' None
        (?p @ Read (ReadFail (External ''terminated'')) # []) example_state)))) =
     Suc (length (terminal (state_of (downloadFile ?f ''u'' ''Lavalink.jar'' None
        (?p @ Read (ReadFail (External ''terminated'')) # []) example_state))))"
    using K [THEN conjunct2, THEN conjunct2, THEN conjunct1] by (simp only: length_append_singleton)
  from h1 ok pend a b c show ?thesis
    by (intro conjI)
qed

lemma length_zeros: "length (zeros n) = n"
  by (simp add: zeros_def)

lemma digit_char: "digit d \<in> set ''0123456789''"
proof -
  have "d mod 10 < length ''0123456789''"
    by simp
  then show ?thesis
    unfolding digit_def by (rule nth_mem)
qed

lemma decimal_chars: "set (decimal n) \<subseteq> set ''0123456789''"
proof (induction n rule: decimal.induct)
  case (1 n)
  show ?case
  proof (cases "n < 10")
    case True
    then show ?thesis
      using digit_char [of n] by (subst decimal.simps) simp
  next
    case False
    with 1 show ?thesis
      using digit_char [of n] by (subst decimal.simps) simp
  qed
qed

lemma decimal_not_Nil: "decimal n \<noteq> []"
  by (subst decimal.simps) simp

lemma megabytes_no_frame_byte: "CHR 0xA0 \<notin> set (toFixed2 (of_nat n / 1024 / 1024))"
proof -
  define k where "k = (n * 100 + 524288) div 1048576"
  have eq: "toFixed2 (of_nat n / 1024 / 1024) =
      decimal (k div 100) @ ''.'' @ [digit (k div 10), digit k]"
    using toFixed2_megabytes [of n] by (simp add: Let_def k_def)
  have a: "CHR 0xA0 \<notin> set ''0123456789''"
    by simp
  have dec: "CHR 0xA0 \<notin> set (decimal m)" for m
    using decimal_chars [of m] a by blast
  have dig: "digit m \<noteq> CHR 0xA0" for m
    using digit_char [of m] a by metis
  show ?thesis
    unfolding eq by (simp add: dec dig [symmetric])
qed

lemma megabytes_rounding:
  fixes n :: nat
  shows "((n * 100 + 524288) div 1048576) * 1048576 \<le> n * 100 + 524288 \<and>
   n * 100 + 524288 < ((n * 100 + 524288) div 1048576 + 1) * 1048576"
proof -
  have "n * 100 + 524288 < Suc ((n * 100 + 524288) div 1048576) * 1048576"
    using dividend_less_div_times [of 1048576 "n * 100 + 524288"] by simp
  then show ?thesis
    by simp
qed

lemma rendered_shape:
  "l \<in> set (rendered lbl t k d es) \<Longrightarrow>
   \<exists>f \<in> set loadingFrames. \<exists>n.
     l = f @ '' '' @ lbl @ '' ('' @ toFixed2 (of_nat n / 1024 / 1024) @ '' MB / '' @ t @ '' MB)''"
proof (induction lbl t k d es rule: rendered.induct)
  case (2 lbl t k d es)
  show ?case
  proof (cases "l \<in> set (rendered lbl t (k + 1) d es)")
    case True
    then show ?thesis by (rule "2.IH")
  next
    case False
    with "2.prems" have l: "l = progress_line (loadingFrames ! (k mod 10)) lbl
        (toFixed2 (of_nat d / 1024 / 1024)) t"
      by simp
    have "loadingFrames ! (k mod 10) \<in> set loadingFrames"
      by (simp add: length_loadingFrames)
    then show ?thesis
      unfolding l progress_line_def by blast
  qed
qed simp_all

lemma toFixed2_2621440: "toFixed2 (of_nat 2621440 / 1024 / 1024) = ''2.50''"
  using toFixed2_megabytes [of 2621440] by (simp add: decimal.simps digit_def Let_def)

lemma frame_byte: "f \<in> set loadingFrames \<Longrightarrow> CHR 0xA0 \<in> set f"
  by (auto simp: loadingFrames_def)

lemma totaledSizeMB_no_frame_byte: "CHR 0xA0 \<notin> set (totaledSizeMB_of r)"
proof (cases "content_length r")
  case None
  then show ?thesis by (simp add: totaledSizeMB_of_def)
next
  case (Some c)
  show ?thesis
    unfolding totaledSizeMB_of_def Some option.case by (rule megabytes_no_frame_byte)
qed

lemma final_line_no_frame_byte:
  "CHR 0xA0 \<notin> set lbl \<Longrightarrow>
   CHR 0xA0 \<notin> set (progress_line successMark lbl (toFixed2 (of_nat n / 1024 / 1024))
     (totaledSizeMB_of r))"
  using megabytes_no_frame_byte [of n] totaledSizeMB_no_frame_byte [of r]
  by (simp add: progress_line_def successMark_def)

subsection \<open>The final line\<close>

text \<open>
  Claim C7. When downloadFile resolves, the timer is cleared, so the event loop renders
  no further spinner line, and the lines of the call are the spinner lines of the ticks
  followed by exactly one final line. Every spinner line is a frame of \<open>loadingFrames\<close>,
  a space, the label and the two sizes. The final line is, byte for byte, the green check
  mark \<^verbatim>\<open>\x1b[32m\<close> U+2714 \<^verbatim>\<open>\x1b[0m\<close>, a space, the label, and in parentheses the
  size of the whole body and the total: each size is the number of hundredths of a
  megabyte nearest to the byte count (half up), written with the point before its last
  two digits, and the total is \<^verbatim>\<open>unknown\<close> without a content-length header. The final
  line begins with no frame, and unless the label itself holds the byte \<open>0xA0\<close> that
  every frame holds, no frame occurs anywhere in it.
\<close>

theorem downloadFile_final_line:
  assumes "downloadFile fetch url dest text_arg es s = (Resolved, s', rest)"
    and "fetch url = Fulfilled r"
  shows "interval s' = Cleared \<and>
         tick (label text_arg) (totaledSizeMB_of r) s' = s' \<and>
         terminal s' =
           terminal s @ rendered (label text_arg) (totaledSizeMB_of r) 0 0 es @
           [progress_line successMark (label text_arg)
              (toFixed2 (of_nat (length (concat (chunks es))) / 1024 / 1024))
              (totaledSizeMB_of r)] \<and>
         (\<forall>l \<in> set (rendered (label text_arg) (totaledSizeMB_of r) 0 0 es).
            \<exists>f \<in> set loadingFrames. prefix f l) \<and>
         prefix successMark (last (terminal s')) \<and>
         (\<forall>f \<in> set loadingFrames. \<not> prefix f (last (terminal s'))) \<and>
         last (terminal s') =
           [CHR 0x1B, CHR ''['', CHR ''3'', CHR ''2'', CHR ''m'', CHR 0xE2, CHR 0x9C, CHR 0x94,
            CHR 0x1B, CHR ''['', CHR ''0'', CHR ''m''] @ '' '' @
           (case text_arg of None \<Rightarrow> ''Downloading...'' | Some t \<Rightarrow> t) @ '' ('' @
           (let k = (length (concat (chunks es)) * 100 + 524288) div 1048576
            in decimal (k div 100) @ ''.'' @ [digit (k div 10), digit k]) @
           '' MB / '' @
           (case content_length r of
              Some c \<Rightarrow>
                (let k = (c * 100 + 524288) div 1048576
                 in decimal (k div 100) @ ''.'' @ [digit (k div 10), digit k])
            | None \<Rightarrow> ''unknown'') @
           '' MB)'' \<and>
         (\<forall>l \<in> set (rendered (label text_arg) (totaledSizeMB_of r) 0 0 es).
            \<exists>f \<in> set loadingFrames. \<exists>n.
              l = f @ '' '' @ (case text_arg of None \<Rightarrow> ''Downloading...'' | Some t \<Rightarrow> t) @
                  '' ('' @ toFixed2 (of_nat n / 1024 / 1024) @ '' MB / '' @
                  totaledSizeMB_of r @ '' MB)'') \<and>
         (CHR 0xA0 \<notin> set (case text_arg of None \<Rightarrow> ''Downloading...'' | Some t \<Rightarrow> t) \<longrightarrow>
            (\<forall>f \<in> set loadingFrames. \<not> sublist f (last (terminal s'))))"
proof -
  from assms(1) obtain r2 where "fetch url = Fulfilled r2" and "ok r2" and "has_body r2"
      and fin: "ending es = Resolved"
    using downloadFile_Resolved by blast
  with assms(2) have r: "ok r" "has_body r" by simp_all
  have s': "s' = state_of (downloadFile fetch url dest text_arg es s)"
    using assms(1) by (simp add: state_of_def)
  have cl: "interval s' = Cleared"
    using resolved_state [OF assms(1)] by simp
  have lines: "terminal s' =
           terminal s @ rendered (label text_arg) (totaledSizeMB_of r) 0 0 es @
           [progress_line successMark (label text_arg)
              (toFixed2 (of_nat (length (concat (chunks es))) / 1024 / 1024))
              (totaledSizeMB_of r)]"
    using assms(2) r fin
    by (simp add: s' downloadFile_terminal [where r = r] final_line_def)
  then have lst: "last (terminal s') =
      progress_line successMark (label text_arg)
        (toFixed2 (of_nat (length (concat (chunks es))) / 1024 / 1024)) (totaledSizeMB_of r)"
    by simp
  have idle: "tick (label text_arg) (totaledSizeMB_of r) s' = s'"
    using cl by (rule tick_cleared)
  have spin: "\<forall>l \<in> set (rendered (label text_arg) (totaledSizeMB_of r) 0 0 es).
            \<exists>f \<in> set loadingFrames. prefix f l"
    using rendered_frames by blast
  have mark: "prefix successMark (last (terminal s'))"
    by (simp only: lst successMark_prefix)
  have nofr: "\<forall>f \<in> set loadingFrames. \<not> prefix f (last (terminal s'))"
    by (simp only: lst) (simp add: successMark_no_frame)
  have lit: "last (terminal s') =
           [CHR 0x1B, CHR ''['', CHR ''3'', CHR ''2'', CHR ''m'', CHR 0xE2, CHR 0x9C, CHR 0x94,
            CHR 0x1B, CHR ''['', CHR ''0'', CHR ''m''] @ '' '' @
           (case text_arg of None \<Rightarrow> ''Downloading...'' | Some t \<Rightarrow> t) @ '' ('' @
           (let k = (length (concat (chunks es)) * 100 + 524288) div 1048576
            in decimal (k div 100) @ ''.'' @ [digit (k div 10), digit k]) @
           '' MB / '' @
           (case content_length r of
              Some c \<Rightarrow>
                (let k = (c * 100 + 524288) div 1048576
                 in decimal (k div 100) @ ''.'' @ [digit (k div 10), digit k])
            | None \<Rightarrow> ''unknown'') @
           '' MB)''"
    unfolding lst progress_line_def successMark_def label_def totaledSizeMB_of_def
      toFixed2_megabytes
    by (rule refl)
  have shape: "\<forall>l \<in> set (rendered (label text_arg) (totaledSizeMB_of r) 0 0 es).
            \<exists>f \<in> set loadingFrames. \<exists>n.
              l = f @ '' '' @ (case text_arg of None \<Rightarrow> ''Downloading...'' | Some t \<Rightarrow> t) @
                  '' ('' @ toFixed2 (of_nat n / 1024 / 1024) @ '' MB / '' @
                  totaledSizeMB_of r @ '' MB)''"
    using rendered_shape [where lbl = "label text_arg" and t = "totaledSizeMB_of r"]
    unfolding label_def by blast
  have nowhere: "CHR 0xA0 \<notin> set (case text_arg of None \<Rightarrow> ''Downloading...'' | Some t \<Rightarrow> t) \<longrightarrow>
            (\<forall>f \<in> set loadingFrames. \<not> sublist f (last (terminal s')))"
  proof (intro impI ballI notI)
    fix f
    assume lbl: "CHR 0xA0 \<notin> set (case text_arg of None \<Rightarrow> ''Downloading...'' | Some t \<Rightarrow> t)"
      and f: "f \<in> set loadingFrames" and sub: "sublist f (last (terminal s'))"
    from sub have "set f \<subseteq> set (last (terminal s'))"
      by (rule set_mono_sublist)
    with frame_byte [OF f] have "CHR 0xA0 \<in> set (last (terminal s'))"
      by blast
    moreover have "CHR 0xA0 \<notin> set (last (terminal s'))"
      unfolding lst using lbl by (intro final_line_no_frame_byte) (simp add: label_def)
    ultimately show False by contradiction
  qed
  from cl idle lines spin mark nofr lit shape nowhere show ?thesis
    by (intro conjI)
qed

lemma scenario_A_ending: "ending scenario_A = Resolved"
  by (simp add: scenario_A_def)

lemma scenario_A_size: "length (concat (chunks scenario_A)) = 5242880"
  by (simp add: scenario_A_def length_zeros)

lemma scenario_A_rendered:
  "rendered lbl t 0 0 scenario_A =
     [progress_line (loadingFrames ! 0) lbl (toFixed2 (of_nat 0 / 1024 / 1024)) t,
      progress_line (loadingFrames ! 1) lbl (toFixed2 (of_nat 2621440 / 1024 / 1024)) t]"
  by (simp add: scenario_A_def length_zeros)

theorem downloadFile_final_line_witness:
  "fst (downloadFile (\<lambda>u. Fulfilled (ok_response (Some 5242880))) ''u'' ''Lavalink.jar''
      (Some ''Downloading test...'') scenario_A example_state) = Resolved \<and>
   interval (state_of (downloadFile (\<lambda>u. Fulfilled (ok_response (Some 5242880))) ''u''
      ''Lavalink.jar'' (Some ''Downloading test...'') scenario_A example_state)) = Cleared \<and>
   terminal (state_of (downloadFile (\<lambda>u. Fulfilled (ok_response (Some 5242880))) ''u''
      ''Lavalink.jar'' (Some ''Downloading test...'') scenario_A example_state)) =
     [[CHR 0xE2, CHR 0xA0, CHR 0x8B] @ '' Downloading test... (0.00 MB / 5.00 MB)'',
      [CHR 0xE2, CHR 0xA0, CHR 0x99] @ '' Downloading test... (2.50 MB / 5.00 MB)'',
      [CHR 0x1B, CHR ''['', CHR ''3'', CHR ''2'', CHR ''m'', CHR 0xE2, CHR 0x9C, CHR 0x94,
       CHR 0x1B, CHR ''['', CHR ''0'', CHR ''m''] @ '' Downloading test... (5.00 MB / 5.00 MB)'']"
proof -
  let ?f = "\<lambda>u::string. Fulfilled (ok_response (Some 5242880))"
  let ?D = "downloadFile ?f ''u'' ''Lavalink.jar'' (Some ''Downloading test...'') scenario_A
      example_state"
  have h: "?f ''u'' = Fulfilled (ok_response (Some 5242880))"
    by simp
  have ok: "ok (ok_response (Some 5242880))" "has_body (ok_response (Some 5242880))"
    by (simp_all add: ok_response_def)
  have res: "fst ?D = Resolved"
    using ok by (simp add: downloadFile_outcome [where r = "ok_response (Some 5242880)"]
        scenario_A_ending)
  have run: "?D = (Resolved, state_of ?D, snd (snd ?D))"
    using res by (simp add: state_of_def prod_eq_iff)
  have tot: "totaledSizeMB_of (ok_response (Some 5242880)) = ''5.00''"
    using toFixed2_5MB by (simp add: totaledSizeMB_of_def ok_response_def)
  have lbl: "label (Some ''Downloading test...'') = ''Downloading test...''"
    by (simp add: label_def)
  note final = downloadFile_final_line [OF run h]
  have cl: "interval (state_of ?D) = Cleared"
    using final by (rule conjunct1)
  have "terminal (state_of ?D) =
      terminal example_state @
      rendered (label (Some ''Downloading test...'')) (totaledSizeMB_of (ok_response (Some 5242880)))
        0 0 scenario_A @
      [progress_line successMark (label (Some ''Downloading test...''))
         (toFixed2 (of_nat (length (concat (chunks scenario_A))) / 1024 / 1024))
         (totaledSizeMB_of (ok_response (Some 5242880)))]"
    using final [THEN conjunct2, THEN conjunct2] by (rule conjunct1)
  then have "terminal (state_of ?D) =
     [progress_line (loadingFrames ! 0) ''Downloading test...'' ''0.00'' ''5.00'',
      progress_line (loadingFrames ! 1) ''Downloading test...'' ''2.50'' ''5.00'',
      progress_line successMark ''Downloading test...'' ''5.00'' ''5.00'']"
    by (simp only: tot lbl scenario_A_size scenario_A_rendered toFixed2_0 toFixed2_2621440
          toFixed2_5MB)
       (simp add: example_state_def)
  then have lines: "terminal (state_of ?D) =
     [[CHR 0xE2, CHR 0xA0, CHR 0x8B] @ '' Downloading test... (0.00 MB / 5.00 MB)'',
      [CHR 0xE2, CHR 0xA0, CHR 0x99] @ '' Downloading test... (2.50 MB / 5.00 MB)'',
      [CHR 0x1B, CHR ''['', CHR ''3'', CHR ''2'', CHR ''m'', CHR 0xE2, CHR 0x9C, CHR 0x94,
       CHR 0x1B, CHR ''['', CHR ''0'', CHR ''m''] @ '' Downloading test... (5.00 MB / 5.00 MB)'']"
    by (simp add: progress_line_def loadingFrames_def successMark_def)
  from res cl lines show ?thesis
    by (intro conjI)
qed

subsection \<open>The file at resolution\<close>

text \<open>
  Claim C1, at a concrete run. The body is the three bytes 1, 2, 3 in two chunks; the
  stream opens the file and writes the first chunk before the second arrives. When
  downloadFile resolves the file at the destination holds the bytes 1, 2 and the byte 3
  is still queued in the stream: the file is not the body. The bytes do arrive in order
  and unchanged (lemma \<open>resolved_state\<close>) and the file is the body once the stream has
  completed its queued operations (lemma \<open>resolved_drained\<close>), but the call does not
  wait for that: \<^verbatim>\<open>fileStream.end()\<close> (line 56) is not awaited.
\<close>

theorem downloadFile_resolved_file_incomplete:
  "fst (downloadFile (\<lambda>u. Fulfilled (ok_response None)) ''u'' ''Lavalink.jar'' None
      [Read (Value [1, 2]), IO, IO, Read (Value [3]), Read EndOfStream] example_state) = Resolved \<and>
   concat (chunks [Read (Value [1, 2]), IO, IO, Read (Value [3]), Read EndOfStream]) = [1, 2, 3] \<and>
   files (state_of (downloadFile (\<lambda>u. Fulfilled (ok_response None)) ''u'' ''Lavalink.jar'' None
      [Read (Value [1, 2]), IO, IO, Read (Value [3]), Read EndOfStream] example_state))
      ''Lavalink.jar'' = Some [1, 2] \<and>
   queued (state_of (downloadFile (\<lambda>u. Fulfilled (ok_response None)) ''u'' ''Lavalink.jar'' None
      [Read (Value [1, 2]), IO, IO, Read (Value [3]), Read EndOfStream] example_state)) = [3]"
proof -
  let ?es = "[Read (Value [1, 2]), IO, IO, Read (Value [3]), Read EndOfStream]"
  let ?D = "downloadFile (\<lambda>u. Fulfilled (ok_response None)) ''u'' ''Lavalink.jar'' None ?es
      example_state"
  let ?W = "fileStream_end (fileStream_write [3]
      ((io (io (fileStream_write [1, 2]
          ((started ''u'' ''Lavalink.jar'' example_state)\<lparr>downloadedSize := 2\<rparr>))))
       \<lparr>downloadedSize := 3\<rparr>))"
  have ok: "ok (ok_response None)" "has_body (ok_response None)"
    by (simp_all add: ok_response_def)
  have res: "fst ?D = Resolved"
    using ok by (simp add: downloadFile_outcome [where r = "ok_response None"])
  have body: "concat (chunks ?es) = [1, 2, 3]"
    by simp
  have st: "state_of ?D =
      logUpdate (final_line None (ok_response None) 3) (?W\<lparr>interval := Cleared\<rparr>)"
    using ok
    by (simp add: downloadFile_state [where r = "ok_response None"] Let_def state_of_triple
          end_fields write_fields io_fields started_fields eval_nat_numeral)
  have fs: "fileStream ?W =
     Some \<lparr>path = ''Lavalink.jar'', flags = Flag_w, opened = True, pending = [[3]],
            ended = True, closed = False\<rparr>"
    by (simp add: io_def fileStream_end_def fileStream_write_def started_def
          createWriteStream_def file_at_def)
  have fl: "files ?W ''Lavalink.jar'' = Some [1, 2]"
    by (simp add: end_fields write_fields)
       (simp add: io_def fileStream_write_def started_def createWriteStream_def file_at_def)
  have disk: "files (state_of ?D) ''Lavalink.jar'' = Some [1, 2]"
    by (simp only: st finish_fields fl)
  have "fileStream (state_of ?D) = fileStream ?W"
    by (simp only: st finish_fields)
  then have qu: "queued (state_of ?D) = [3]"
    by (simp add: queued_def fs)
  from res body disk qu show ?thesis
    by (intro conjI)
qed

lemma toFixed2_349525: "toFixed2 (of_nat 349525 / 1024 / 1024) = ''0.33''"
  using toFixed2_megabytes [of 349525] by (simp add: decimal.simps digit_def Let_def)

lemma toFixed2_1MB: "toFixed2 (of_nat 1048576 / 1024 / 1024) = ''1.00''"
  using toFixed2_megabytes [of 1048576] by (simp add: decimal.simps digit_def Let_def)

lemma scenario_B_ending: "ending scenario_B = Resolved"
  by (simp add: scenario_B_def)

lemma scenario_B_size: "length (concat (chunks scenario_B)) = 1048576"
  by (simp add: scenario_B_def length_zeros)

lemma scenario_B_rendered:
  "rendered lbl t 0 0 scenario_B =
     [progress_line (loadingFrames ! 0) lbl (toFixed2 (of_nat 349525 / 1024 / 1024)) t]"
  by (simp add: scenario_B_def length_zeros)

lemma frame_in_range: "loadingFrames ! (k mod length loadingFrames) \<in> set loadingFrames"
  by (simp add: length_loadingFrames)

subsection \<open>No content-length header\<close>

text \<open>
  Claim C5. When the response has no content-length header, every line the call gives to
  logUpdate, on a timer tick or as the final line, and whatever the events, is a frame or
  the success marker, a space, the label, and then \<^verbatim>\<open>(<size> MB / unknown MB)\<close>, where
  the size is a decimal numeral with two digits after the point. The total is the fixed
  string: the header value is not divided. In JavaScript the arithmetic of the rendering
  cannot throw; what could go wrong is a division by zero or a read outside the array,
  which would show as \<^verbatim>\<open>NaN\<close> or \<^verbatim>\<open>undefined\<close> in the line. Neither happens: the
  frame index is taken modulo the length of \<open>loadingFrames\<close>, which is not zero, so
  the frame read is always one of the array, and with a body present the outcome of the
  call is the one the reader dictates.
\<close>

theorem unknown_total_rendering:
  assumes "fetch url = Fulfilled r" and "content_length r = None"
  shows "(\<exists>new. terminal (state_of (downloadFile fetch url dest text_arg es s)) = terminal s @ new \<and>
            (\<forall>l \<in> set new. \<exists>mark n.
               (mark \<in> set loadingFrames \<or> mark = successMark) \<and>
               l = mark @ '' '' @
                   (case text_arg of None \<Rightarrow> ''Downloading...'' | Some t \<Rightarrow> t) @ '' ('' @
                   (let k = (n * 100 + 524288) div 1048576
                    in decimal (k div 100) @ ''.'' @ [digit (k div 10), digit k]) @
                   '' MB / unknown MB)'' \<and>
               suffix '' MB / unknown MB)'' l)) \<and>
         (ok r \<longrightarrow> has_body r \<longrightarrow> fst (downloadFile fetch url dest text_arg es s) = ending es) \<and>
         0 < length loadingFrames \<and>
         (\<forall>k. loadingFrames ! (k mod length loadingFrames) \<in> set loadingFrames)"
proof -
  let ?lbl = "case text_arg of None \<Rightarrow> ''Downloading...'' | Some t \<Rightarrow> t"
  let ?shape = "\<lambda>l. \<exists>mark n.
               (mark \<in> set loadingFrames \<or> mark = successMark) \<and>
               l = mark @ '' '' @ ?lbl @ '' ('' @
                   (let k = (n * 100 + 524288) div 1048576
                    in decimal (k div 100) @ ''.'' @ [digit (k div 10), digit k]) @
                   '' MB / unknown MB)'' \<and>
               suffix '' MB / unknown MB)'' l"
  have tot: "totaledSizeMB_of r = ''unknown''"
    using assms(2) by (simp add: totaledSizeMB_of_def)
  have lit: "?shape (mark @ '' '' @ ?lbl @ '' ('' @ toFixed2 (of_nat n / 1024 / 1024) @
      '' MB / '' @ ''unknown'' @ '' MB)'')"
    if "mark \<in> set loadingFrames \<or> mark = successMark" for mark n
  proof -
    have s: "suffix '' MB / unknown MB)'' (mark @ '' '' @ ?lbl @ '' ('' @
        toFixed2 (of_nat n / 1024 / 1024) @ '' MB / unknown MB)'')"
      by (simp only: suffix_appendI suffix_order.refl append_assoc [symmetric])
    have e: "mark @ '' '' @ ?lbl @ '' ('' @ toFixed2 (of_nat n / 1024 / 1024) @
        '' MB / '' @ ''unknown'' @ '' MB)'' =
      mark @ '' '' @ ?lbl @ '' ('' @ toFixed2 (of_nat n / 1024 / 1024) @ '' MB / unknown MB)''"
      by simp
    show ?thesis
      unfolding e using that s unfolding toFixed2_megabytes by blast
  qed
  have lines: "\<exists>new. terminal (state_of (downloadFile fetch url dest text_arg es s)) = terminal s @ new \<and>
            (\<forall>l \<in> set new. ?shape l)"
  proof (cases "ok r")
    case False
    with assms(1) have "terminal (state_of (downloadFile fetch url dest text_arg es s)) = terminal s @ []"
      by (simp add: downloadFile_not_ok [where r = r])
    then show ?thesis by (metis empty_iff list.set(1))
  next
    case ok: True
    show ?thesis
    proof (cases "has_body r")
      case False
      with ok assms(1)
      have "terminal (state_of (downloadFile fetch url dest text_arg es s)) = terminal s @ []"
        by (simp add: downloadFile_null_body [where r = r] state_of_def started_fields)
      then show ?thesis by (metis empty_iff list.set(1))
    next
      case True
      let ?new = "rendered (label text_arg) ''unknown'' 0 0 es @
           (if ending es = Resolved
            then [final_line text_arg r (length (concat (chunks es)))] else [])"
      have "terminal (state_of (downloadFile fetch url dest text_arg es s)) = terminal s @ ?new"
        using assms(1) ok True by (simp add: downloadFile_terminal [where r = r] tot)
      moreover have "?shape l" if "l \<in> set ?new" for l
      proof (cases "l \<in> set (rendered (label text_arg) ''unknown'' 0 0 es)")
        case True
        then obtain f n where "f \<in> set loadingFrames"
          and "l = f @ '' '' @ label text_arg @ '' ('' @ toFixed2 (of_nat n / 1024 / 1024) @
              '' MB / '' @ ''unknown'' @ '' MB)''"
          using rendered_shape by blast
        then show ?thesis
          unfolding label_def using lit [of f n] by simp
      next
        case False
        with that have "l = final_line text_arg r (length (concat (chunks es)))"
          by (simp split: if_splits)
        then have "l = successMark @ '' '' @ ?lbl @ '' ('' @
            toFixed2 (of_nat (length (concat (chunks es))) / 1024 / 1024) @
            '' MB / '' @ ''unknown'' @ '' MB)''"
          unfolding final_line_def tot progress_line_def label_def by simp
        then show ?thesis
          using lit [of successMark "length (concat (chunks es))"] by simp
      qed
      ultimately show ?thesis by blast
    qed
  qed
  have out: "ok r \<longrightarrow> has_body r \<longrightarrow> fst (downloadFile fetch url dest text_arg es s) = ending es"
    using assms(1) by (simp add: downloadFile_outcome [where r = r])
  have len: "0 < length loadingFrames"
    by (simp add: length_loadingFrames)
  have rng: "\<forall>k. loadingFrames ! (k mod length loadingFrames) \<in> set loadingFrames"
    using frame_in_range by blast
  from lines out len rng show ?thesis
    by (intro conjI)
qed

theorem unknown_total_rendering_witness:
  "(\<lambda>u. Fulfilled (ok_response None)) ''u'' = Fulfilled (ok_response None) \<and>
   content_length (ok_response None) = None \<and>
   terminal (state_of (downloadFile (\<lambda>u. Fulfilled (ok_response None)) ''u'' ''Lavalink.jar'' None
      scenario_B example_state)) =
     [[CHR 0xE2, CHR 0xA0, CHR 0x8B] @ '' Downloading... (0.33 MB / unknown MB)'',
      [CHR 0x1B, CHR ''['', CHR ''3'', CHR ''2'', CHR ''m'', CHR 0xE2, CHR 0x9C, CHR 0x94,
       CHR 0x1B, CHR ''['', CHR ''0'', CHR ''m''] @ '' Downloading... (1.00 MB / unknown MB)''] \<and>
   fst (downloadFile (\<lambda>u. Fulfilled (ok_response None)) ''u'' ''Lavalink.jar'' None
      scenario_B example_state) = Resolved \<and>
   0 < length loadingFrames"
proof -
  let ?f = "\<lambda>u::string. Fulfilled (ok_response None)"
  let ?D = "downloadFile ?f ''u'' ''Lavalink.jar'' None scenario_B example_state"
  have h1: "?f ''u'' = Fulfilled (ok_response None)"
    by simp
  have h2: "content_length (ok_response None) = None"
    by (simp add: ok_response_def)
  have ok: "ok (ok_response None)" "has_body (ok_response None)"
    by (simp_all add: ok_response_def)
  note U = unknown_total_rendering
    [where fetch = ?f and url = "''u''" and r = "ok_response None" and dest = "''Lavalink.jar''"
       and text_arg = None and es = scenario_B and s = example_state, OF h1 h2]
  have "fst ?D = ending scenario_B"
    using U [THEN conjunct2, THEN conjunct1] ok by blast
  then have res: "fst ?D = Resolved"
    by (simp only: scenario_B_ending)
  have len: "0 < length loadingFrames"
    using U [THEN conjunct2, THEN conjunct2] by (rule conjunct1)
  have tot: "totaledSizeMB_of (ok_response None) = ''unknown''"
    by (simp add: totaledSizeMB_of_def ok_response_def)
  have lbl: "label None = ''Downloading...''"
    by (simp add: label_def)
  have "terminal (state_of ?D) =
      terminal example_state @ rendered (label None) (totaledSizeMB_of (ok_response None)) 0 0
        scenario_B @
      (if ending scenario_B = Resolved
       then [final_line None (ok_response None) (length (concat (chunks scenario_B)))] else [])"
    using h1 ok by (rule downloadFile_terminal)
  then have "terminal (state_of ?D) =
     [progress_line (loadingFrames ! 0) ''Downloading...'' ''0.33'' ''unknown'',
      progress_line successMark ''Downloading...'' ''1.00'' ''unknown'']"
    by (simp only: tot lbl scenario_B_size scenario_B_rendered scenario_B_ending final_line_def
          toFixed2_349525 toFixed2_1MB if_True)
       (simp add: example_state_def)
  then have lines: "terminal (state_of ?D) =
     [[CHR 0xE2, CHR 0xA0, CHR 0x8B] @ '' Downloading... (0.33 MB / unknown MB)'',
      [CHR 0x1B, CHR ''['', CHR ''3'', CHR ''2'', CHR ''m'', CHR 0xE2, CHR 0x9C, CHR 0x94,
       CHR 0x1B, CHR ''['', CHR ''0'', CHR ''m''] @ '' Downloading... (1.00 MB / unknown MB)'']"
    by (simp add: progress_line_def loadingFrames_def successMark_def)
  from h1 h2 lines res len show ?thesis
    by (intro conjI)
qed

lemma on_disk_prefix: "prefix (on_disk s) (accepted s)"
  by (simp add: accepted_def)

subsection \<open>What a tick shows\<close>

text \<open>
  Claim C6 says that the total a progress line shows never exceeds the bytes written to
  the destination. Two runs show otherwise. In the first a chunk of 1048576 bytes has
  been read and no file-system operation has completed: the tick renders
  \<^verbatim>\<open>1.00 MB\<close> while the stream has put nothing on disk and the file at the destination
  still has its old two bytes. In the second a chunk of 5243 bytes has been read and is
  on disk in full: the tick renders \<^verbatim>\<open>0.01 MB\<close>, and a hundredth of a megabyte is
  more than 5243 bytes, because \<^verbatim>\<open>toFixed(2)\<close> rounds to the nearest hundredth.
\<close>

theorem progress_ahead_of_disk:
  "terminal (state_of (downloadFile (\<lambda>u. Fulfilled (ok_response None)) ''u'' ''Lavalink.jar'' None
      [Read (Value (zeros 1048576)), Tick] example_state)) =
     [[CHR 0xE2, CHR 0xA0, CHR 0x8B] @ '' Downloading... (1.00 MB / unknown MB)''] \<and>
   on_disk (state_of (downloadFile (\<lambda>u. Fulfilled (ok_response None)) ''u'' ''Lavalink.jar'' None
      [Read (Value (zeros 1048576)), Tick] example_state)) = [] \<and>
   files (state_of (downloadFile (\<lambda>u. Fulfilled (ok_response None)) ''u'' ''Lavalink.jar'' None
      [Read (Value (zeros 1048576)), Tick] example_state)) ''Lavalink.jar'' = Some [9, 9] \<and>
   terminal (state_of (downloadFile (\<lambda>u. Fulfilled (ok_response None)) ''u'' ''Lavalink.jar'' None
      [Read (Value (zeros 5243)), IO, IO, Tick] example_state)) =
     [[CHR 0xE2, CHR 0xA0, CHR 0x8B] @ '' Downloading... (0.01 MB / unknown MB)''] \<and>
   files (state_of (downloadFile (\<lambda>u. Fulfilled (ok_response None)) ''u'' ''Lavalink.jar'' None
      [Read (Value (zeros 5243)), IO, IO, Tick] example_state)) ''Lavalink.jar'' =
     Some (zeros 5243) \<and>
   length (on_disk (state_of (downloadFile (\<lambda>u. Fulfilled (ok_response None)) ''u''
      ''Lavalink.jar'' None [Read (Value (zeros 5243)), IO, IO, Tick] example_state))) = 5243 \<and>
   (5243::nat) * 100 < 1 * 1048576"
proof -
  let ?f = "\<lambda>u::string. Fulfilled (ok_response None)"
  let ?e1 = "[Read (Value (zeros 1048576)), Tick]"
  let ?e2 = "[Read (Value (zeros 5243)), IO, IO, Tick]"
  let ?S1 = "state_of (downloadFile ?f ''u'' ''Lavalink.jar'' None ?e1 example_state)"
  let ?S2 = "state_of (downloadFile ?f ''u'' ''Lavalink.jar'' None ?e2 example_state)"
  let ?s0 = "started ''u'' ''Lavalink.jar'' example_state"
  have h: "?f ''u'' = Fulfilled (ok_response None)"
    by simp
  have ok: "ok (ok_response None)" "has_body (ok_response None)"
    by (simp_all add: ok_response_def)
  have tot: "totaledSizeMB_of (ok_response None) = ''unknown''"
    by (simp add: totaledSizeMB_of_def ok_response_def)
  have lbl: "label None = ''Downloading...''"
    by (simp add: label_def)
  have r1: "rendered lbl t 0 0 ?e1 =
      [progress_line (loadingFrames ! 0) lbl (toFixed2 (of_nat 1048576 / 1024 / 1024)) t]" for lbl t
    by (simp add: length_zeros)
  have r2: "rendered lbl t 0 0 ?e2 =
      [progress_line (loadingFrames ! 0) lbl (toFixed2 (of_nat 5243 / 1024 / 1024)) t]" for lbl t
    by (simp add: length_zeros)
  have "terminal ?S1 =
      terminal example_state @ rendered (label None) (totaledSizeMB_of (ok_response None)) 0 0 ?e1 @
      (if ending ?e1 = Resolved
       then [final_line None (ok_response None) (length (concat (chunks ?e1)))] else [])"
    using h ok by (rule downloadFile_terminal)
  then have "terminal ?S1 = [progress_line (loadingFrames ! 0) ''Downloading...'' ''1.00'' ''unknown'']"
    by (simp only: tot lbl r1 toFixed2_1MB) (simp add: example_state_def)
  then have t1: "terminal ?S1 =
     [[CHR 0xE2, CHR 0xA0, CHR 0x8B] @ '' Downloading... (1.00 MB / unknown MB)'']"
    by (simp add: progress_line_def loadingFrames_def)
  have "terminal ?S2 =
      terminal example_state @ rendered (label None) (totaledSizeMB_of (ok_response None)) 0 0 ?e2 @
      (if ending ?e2 = Resolved
       then [final_line None (ok_response None) (length (concat (chunks ?e2)))] else [])"
    using h ok by (rule downloadFile_terminal)
  then have "terminal ?S2 = [progress_line (loadingFrames ! 0) ''Downloading...'' ''0.01'' ''unknown'']"
    by (simp only: tot lbl r2 toFixed2_5243) (simp add: example_state_def)
  then have t2: "terminal ?S2 =
     [[CHR 0xE2, CHR 0xA0, CHR 0x8B] @ '' Downloading... (0.01 MB / unknown MB)'']"
    by (simp add: progress_line_def loadingFrames_def)
  have s1: "?S1 = tick (label None) (totaledSizeMB_of (ok_response None))
      (fileStream_write (zeros 1048576) (?s0\<lparr>downloadedSize := 1048576\<rparr>))"
    using ok
    by (simp add: downloadFile_state [where r = "ok_response None"] Let_def state_of_triple
          started_fields length_zeros)
  have s2: "?S2 = tick (label None) (totaledSizeMB_of (ok_response None))
      (io (io (fileStream_write (zeros 5243) (?s0\<lparr>downloadedSize := 5243\<rparr>))))"
    using ok
    by (simp add: downloadFile_state [where r = "ok_response None"] Let_def state_of_triple
          started_fields length_zeros)
  have d1: "on_disk ?S1 = []"
    unfolding s1
    by (simp add: on_disk_def tick_fields fileStream_write_def started_def createWriteStream_def)
  have f1: "files ?S1 ''Lavalink.jar'' = Some [9, 9]"
    unfolding s1 by (simp add: tick_fields write_fields started_fields example_state_def)
  have fs2: "fileStream (io (io (fileStream_write (zeros 5243) (?s0\<lparr>downloadedSize := 5243\<rparr>)))) =
      Some \<lparr>path = ''Lavalink.jar'', flags = Flag_w, opened = True, pending = [],
             ended = False, closed = False\<rparr>"
    by (simp add: io_def fileStream_write_def started_def createWriteStream_def file_at_def)
  have fl2: "files (io (io (fileStream_write (zeros 5243) (?s0\<lparr>downloadedSize := 5243\<rparr>))))
      ''Lavalink.jar'' = Some (zeros 5243)"
    by (simp add: io_def fileStream_write_def started_def createWriteStream_def file_at_def)
  have f2: "files ?S2 ''Lavalink.jar'' = Some (zeros 5243)"
    unfolding s2 by (simp only: tick_fields fl2)
  have "on_disk ?S2 = zeros 5243"
    unfolding s2 by (simp add: on_disk_def tick_fields fs2 file_at_def fl2)
  then have d2: "length (on_disk ?S2) = 5243"
    by (simp add: length_zeros)
  have ar: "(5243::nat) * 100 < 1 * 1048576"
    by simp
  from t1 d1 f1 t2 f2 d2 ar show ?thesis
    by (intro conjI)
qed

text \<open>
  Claim C6, amended. The counter and the stream move together: at every point of a
  transfer (after any events) \<open>downloadedSize\<close> is exactly the number of bytes handed to
  \<^verbatim>\<open>fileStream.write\<close> so far, on disk or still queued in the stream, because the
  addition and the write are one step of the loop with no suspension between them. The
  bytes on disk are at most that many. A timer tick at that point renders this number
  and no other: the line is the frame, the label and the number of hundredths of a
  megabyte nearest to the count (half up), so the figure can be ahead of the count by
  less than a hundredth of a megabyte, and ahead of the disk by what the stream queues.
\<close>

theorem progress_reads_written_bytes:
  assumes "fetch url = Fulfilled r" and "ok r" and "has_body r"
  shows "downloadedSize (state_of (downloadFile fetch url dest text_arg es s)) =
           length (accepted (state_of (downloadFile fetch url dest text_arg es s))) \<and>
         (ending es = Pending \<longrightarrow>
            terminal (state_of (downloadFile fetch url dest text_arg (es @ [Tick]) s)) =
              terminal (state_of (downloadFile fetch url dest text_arg es s)) @
              [progress_line
                 (loadingFrames ! (i (state_of (downloadFile fetch url dest text_arg es s)) mod 10))
                 (label text_arg)
                 (toFixed2 (of_nat (length (accepted
                     (state_of (downloadFile fetch url dest text_arg es s)))) / 1024 / 1024))
                 (totaledSizeMB_of r)]) \<and>
         (ending es = Pending \<longrightarrow>
            last (terminal (state_of (downloadFile fetch url dest text_arg (es @ [Tick]) s))) =
              loadingFrames ! (i (state_of (downloadFile fetch url dest text_arg es s)) mod 10) @
              '' '' @ (case text_arg of None \<Rightarrow> ''Downloading...'' | Some t \<Rightarrow> t) @ '' ('' @
              (let k = (length (accepted (state_of (downloadFile fetch url dest text_arg es s)))
                          * 100 + 524288) div 1048576
               in decimal (k div 100) @ ''.'' @ [digit (k div 10), digit k]) @
              '' MB / '' @
              (case content_length r of
                 Some c \<Rightarrow>
                   (let k = (c * 100 + 524288) div 1048576
                    in decimal (k div 100) @ ''.'' @ [digit (k div 10), digit k])
               | None \<Rightarrow> ''unknown'') @
              '' MB)'') \<and>
         (let n = length (accepted (state_of (downloadFile fetch url dest text_arg es s)));
              k = (n * 100 + 524288) div 1048576
          in k * 1048576 \<le> n * 100 + 524288 \<and> n * 100 + 524288 < (k + 1) * 1048576) \<and>
         length (on_disk (state_of (downloadFile fetch url dest text_arg es s))) \<le>
           downloadedSize (state_of (downloadFile fetch url dest text_arg es s))"
proof -
  let ?S = "state_of (downloadFile fetch url dest text_arg es s)"
  let ?T = "state_of (downloadFile fetch url dest text_arg (es @ [Tick]) s)"
  let ?line = "progress_line (loadingFrames ! (i ?S mod 10)) (label text_arg)
             (toFixed2 (of_nat (length (accepted ?S)) / 1024 / 1024)) (totaledSizeMB_of r)"
  have size: "downloadedSize ?S = length (accepted ?S)"
    using assms by (simp add: downloadFile_size [where r = r] downloadFile_accepted [where r = r])
  have tk: "terminal ?T = terminal ?S @ [?line]" if pend: "ending es = Pending"
  proof -
    have act: "interval ?S = Active"
      using assms pend by (simp add: downloadFile_interval [where r = r])
    have "?T =
          state_of (writeToFile (label text_arg) (totaledSizeMB_of r) (es @ [Tick]) (started url dest s))"
      using assms pend by (simp add: downloadFile_state [where r = r] Let_def ending_append)
    also have "\<dots> = tick (label text_arg) (totaledSizeMB_of r) ?S"
      using assms pend
      by (simp only: downloadFile_append [where r = r and fetch = fetch] writeToFile_Tick)
    finally show ?thesis
      using act size by (simp add: tick_active)
  qed
  have c2: "ending es = Pending \<longrightarrow> terminal ?T = terminal ?S @ [?line]"
    using tk by blast
  have lit: "?line =
      loadingFrames ! (i ?S mod 10) @
      '' '' @ (case text_arg of None \<Rightarrow> ''Downloading...'' | Some t \<Rightarrow> t) @ '' ('' @
      (let k = (length (accepted ?S) * 100 + 524288) div 1048576
       in decimal (k div 100) @ ''.'' @ [digit (k div 10), digit k]) @
      '' MB / '' @
      (case content_length r of
         Some c \<Rightarrow>
           (let k = (c * 100 + 524288) div 1048576
            in decimal (k div 100) @ ''.'' @ [digit (k div 10), digit k])
       | None \<Rightarrow> ''unknown'') @
      '' MB)''"
    unfolding progress_line_def label_def totaledSizeMB_of_def toFixed2_megabytes
    by (rule refl)
  have c3: "ending es = Pending \<longrightarrow> last (terminal ?T) =
      loadingFrames ! (i ?S mod 10) @
      '' '' @ (case text_arg of None \<Rightarrow> ''Downloading...'' | Some t \<Rightarrow> t) @ '' ('' @
      (let k = (length (accepted ?S) * 100 + 524288) div 1048576
       in decimal (k div 100) @ ''.'' @ [digit (k div 10), digit k]) @
      '' MB / '' @
      (case content_length r of
         Some c \<Rightarrow>
           (let k = (c * 100 + 524288) div 1048576
            in decimal (k div 100) @ ''.'' @ [digit (k div 10), digit k])
       | None \<Rightarrow> ''unknown'') @
      '' MB)''"
  proof
    assume "ending es = Pending"
    then have "last (terminal ?T) = ?line"
      by (simp add: tk)
    then show "last (terminal ?T) =
      loadingFrames ! (i ?S mod 10) @
      '' '' @ (case text_arg of None \<Rightarrow> ''Downloading...'' | Some t \<Rightarrow> t) @ '' ('' @
      (let k = (length (accepted ?S) * 100 + 524288) div 1048576
       in decimal (k div 100) @ ''.'' @ [digit (k div 10), digit k]) @
      '' MB / '' @
      (case content_length r of
         Some c \<Rightarrow>
           (let k = (c * 100 + 524288) div 1048576
            in decimal (k div 100) @ ''.'' @ [digit (k div 10), digit k])
       | None \<Rightarrow> ''unknown'') @
      '' MB)''"
      by (simp only: lit)
  qed
  have c4: "let n = length (accepted ?S); k = (n * 100 + 524288) div 1048576
          in k * 1048576 \<le> n * 100 + 524288 \<and> n * 100 + 524288 < (k + 1) * 1048576"
    unfolding Let_def by (rule megabytes_rounding)
  have c5: "length (on_disk ?S) \<le> downloadedSize ?S"
    unfolding size using on_disk_prefix [of ?S] by (rule prefix_length_le)
  from size c2 c3 c4 c5 show ?thesis
    by (intro conjI)
qed

theorem progress_reads_written_bytes_witness:
  "(\<lambda>u. Fulfilled (ok_response None)) ''u'' = Fulfilled (ok_response None) \<and>
   ok (ok_response None) \<and> has_body (ok_response None) \<and>
   ending [Tick, Read (Value (zeros 349525)), IO] = Pending \<and>
   length (accepted (state_of (downloadFile (\<lambda>u. Fulfilled (ok_response None)) ''u''
      ''Lavalink.jar'' None [Tick, Read (Value (zeros 349525)), IO] example_state))) = 349525 \<and>
   downloadedSize (state_of (downloadFile (\<lambda>u. Fulfilled (ok_response None)) ''u'' ''Lavalink.jar''
      None [Tick, Read (Value (zeros 349525)), IO] example_state)) = 349525 \<and>
   last (terminal (state_of (downloadFile (\<lambda>u. Fulfilled (ok_response None)) ''u''
      ''Lavalink.jar'' None ([Tick, Read (Value (zeros 349525)), IO] @ [Tick]) example_state))) =
     [CHR 0xE2, CHR 0xA0, CHR 0x99] @ '' Downloading... (0.33 MB / unknown MB)''"
proof -
  let ?f = "\<lambda>u::string. Fulfilled (ok_response None)"
  let ?p = "[Tick, Read (Value (zeros 349525)), IO]"
  let ?S = "state_of (downloadFile ?f ''u'' ''Lavalink.jar'' None ?p example_state)"
  have h1: "?f ''u'' = Fulfilled (ok_response None)"
    by simp
  have ok: "ok (ok_response None)" "has_body (ok_response None)"
    by (simp_all add: ok_response_def)
  have pend: "ending ?p = Pending"
    by simp
  have acc: "length (accepted ?S) = 349525"
    using ok by (simp add: downloadFile_accepted [where r = "ok_response None"] length_zeros)
  have fr: "i ?S = 1"
  proof -
    have "?S = state_of (writeToFile (label None) (totaledSizeMB_of (ok_response None)) ?p
        (started ''u'' ''Lavalink.jar'' example_state))"
      using ok by (simp add: downloadFile_state [where r = "ok_response None"] Let_def)
    then show ?thesis
      by (simp add: state_of_def io_fields write_fields tick_active started_fields)
  qed
  have tot: "totaledSizeMB_of (ok_response None) = ''unknown''"
    by (simp add: totaledSizeMB_of_def ok_response_def)
  have lbl: "label None = ''Downloading...''"
    by (simp add: label_def)
  note P = progress_reads_written_bytes
      [where fetch = ?f and url = "''u''" and r = "ok_response None" and dest = "''Lavalink.jar''"
         and text_arg = None and es = ?p and s = example_state, OF h1 ok]
  have sz: "downloadedSize ?S = 349525"
    using P [THEN conjunct1] by (simp only: acc)
  have "terminal (state_of (downloadFile ?f ''u'' ''Lavalink.jar'' None (?p @ [Tick]) example_state)) =
      terminal ?S @
      [progress_line (loadingFrames ! (i ?S mod 10)) (label None)
         (toFixed2 (of_nat (length (accepted ?S)) / 1024 / 1024))
         (totaledSizeMB_of (ok_response None))]"
    using P [THEN conjunct2, THEN conjunct1] pend by blast
  then have "last (terminal (state_of (downloadFile ?f ''u'' ''Lavalink.jar'' None (?p @ [Tick])
      example_state))) = progress_line (loadingFrames ! 1) ''Downloading...'' ''0.33'' ''unknown''"
    by (simp only: acc fr tot lbl toFixed2_349525) simp
  then have ln: "last (terminal (state_of (downloadFile ?f ''u'' ''Lavalink.jar'' None (?p @ [Tick])
      example_state))) = [CHR 0xE2, CHR 0xA0, CHR 0x99] @ '' Downloading... (0.33 MB / unknown MB)''"
    by (simp add: progress_line_def loadingFrames_def)
  from h1 ok pend acc sz ln show ?thesis
    by (intro conjI)
qed

end
